theory Spec2Isabelle
  imports Main "HOL-Library.AList" "HOL-Library.Multiset"
begin

section \<open>JavaScript values and built-ins used by the aggregation pipeline\<close>

text \<open>
  The program is the class \<^verbatim>\<open>TopicTreeInterface\<close> of \<^verbatim>\<open>script.js\<close>. Ids are JavaScript
  numbers that hold integers, modelled as \<^typ>\<open>int\<close>: the integer stands for the double
  that has this value. Counts are lengths of arrays and sizes of maps, modelled as
  \<^typ>\<open>nat\<close>. A property that may be \<^verbatim>\<open>undefined\<close> is an \<^typ>\<open>'a option\<close>. The result of
  \<^verbatim>\<open>parseInt\<close> or of a division is a \<open>js_number\<close>, which keeps the values that are not
  finite.
\<close>

datatype js_number = Num int | PosInfinity | NegInfinity | NaN

definition digit_char :: "nat \<Rightarrow> char" where
  "digit_char n = ''0123456789'' ! n"

text \<open>The decimal digits of a count and of a non-negative integer.\<close>

fun string_of_nat :: "nat \<Rightarrow> string" where
  "string_of_nat n =
     (if n < 10 then [digit_char n] else string_of_nat (n div 10) @ [digit_char (n mod 10)])"

declare string_of_nat.simps [simp del]

function digits_of :: "int \<Rightarrow> string" where
  "digits_of n =
     (if n < 10 then [digit_char (nat n)]
      else digits_of (n div 10) @ [digit_char (nat (n mod 10))])"
  by pat_completeness auto
termination
  by (relation "measure nat") auto

declare digits_of.simps [simp del]

subsection \<open>Number values\<close>

text \<open>
  \<open>nearest_double n\<close> is the double nearest to the integer \<open>n\<close>: the integer itself when
  it has at most 53 significant bits, and otherwise \<open>n\<close> rounded to 53 significant bits,
  ties to even. \<open>Number_of_int\<close> is the Number value of a mathematical integer, which is
  infinite when the nearest double would need more than 1024 bits, that is from
  \<open>2 ^ 1024\<close> on.
\<close>

function bitlen :: "int \<Rightarrow> int" where
  "bitlen n = (if n \<le> 0 then 0 else 1 + bitlen (n div 2))"
  by pat_completeness auto
termination
  by (relation "measure nat") auto

declare bitlen.simps [simp del]

definition nearest_double :: "int \<Rightarrow> int" where
  "nearest_double n =
     (let a = \<bar>n\<bar>; s = bitlen a - 53 in
      if s \<le> 0 then n
      else (let f = a div 2 ^ nat s;
                r = a mod 2 ^ nat s;
                h = 2 ^ nat (s - 1);
                m = (if r < h then f else if h < r then f + 1
                     else if even f then f else f + 1)
            in sgn n * (m * 2 ^ nat s)))"

definition Number_of_int :: "int \<Rightarrow> js_number" where
  "Number_of_int n =
     (let d = nearest_double n in
      if bitlen \<bar>d\<bar> \<le> 1024 then Num d
      else if 0 < d then PosInfinity
      else NegInfinity)"

text \<open>
  \<^verbatim>\<open>Number.prototype.toString\<close>, which is what a template literal and \<^verbatim>\<open>parseInt\<close> apply
  to a number. For a positive integer-valued double \<open>v\<close> the digits are those of the
  integer \<open>s\<close> with the fewest digits such that \<open>s * 10 ^ e\<close> rounds to \<open>v\<close> (the
  nearest one if there are two): \<open>shortest_from v e\<close> searches from the exponent \<open>e\<close>
  downwards. With \<open>n\<close> the number of digits of \<open>s\<close> plus \<open>e\<close>, the number is printed
  as the digits of \<open>s\<close> followed by \<open>e\<close> zeros when \<open>n \<le> 21\<close>, and in exponent notation
  (\<^verbatim>\<open>1e+21\<close>, \<^verbatim>\<open>1.5e+21\<close>) otherwise.
\<close>

fun shortest_from :: "int \<Rightarrow> nat \<Rightarrow> int \<times> nat" where
  "shortest_from v e =
     (let s = v div 10 ^ e;
          lo = (0 < s \<and> nearest_double (s * 10 ^ e) = v);
          hi = (nearest_double ((s + 1) * 10 ^ e) = v)
      in if lo \<and> hi then
           (if v - s * 10 ^ e \<le> (s + 1) * 10 ^ e - v then (s, e) else (s + 1, e))
         else if lo then (s, e)
         else if hi then (s + 1, e)
         else if e = 0 then (v, 0)
         else shortest_from v (e - 1))"

declare shortest_from.simps [simp del]

definition Number_digits :: "int \<Rightarrow> string" where
  "Number_digits v =
     (case shortest_from v (length (digits_of v)) of (s, e) \<Rightarrow>
        (let ds = digits_of s; n = length ds + e
         in if n \<le> 21 then ds @ replicate e (CHR ''0'')
            else take 1 ds @ (if length ds = 1 then [] else CHR ''.'' # drop 1 ds)
                 @ ''e+'' @ string_of_nat (n - 1)))"

fun string_of_number :: "js_number \<Rightarrow> string" where
  "string_of_number (Num i) =
     (if i = 0 then ''0'' else if i < 0 then ''-'' @ Number_digits (- i) else Number_digits i)"
| "string_of_number PosInfinity = ''Infinity''"
| "string_of_number NegInfinity = ''-Infinity''"
| "string_of_number NaN = ''NaN''"

declare string_of_number.simps [simp del]

text \<open>The plain decimal notation of an integer, used to state what is printed.\<close>

definition string_of_int :: "int \<Rightarrow> string" where
  "string_of_int i = (if i < 0 then ''-'' @ digits_of (- i) else digits_of i)"

text \<open>
  Strict equality of two numbers (\<^verbatim>\<open>===\<close>): NaN is equal to nothing.
\<close>

definition strict_equal :: "js_number \<Rightarrow> js_number \<Rightarrow> bool" where
  "strict_equal a b = (a \<noteq> NaN \<and> a = b)"

text \<open>
  Truthiness: a number is truthy unless it is \<^verbatim>\<open>undefined\<close> or 0, a string unless it is
  \<^verbatim>\<open>undefined\<close> or empty. Both functions return the truthy value itself.
\<close>

definition truthy_num :: "int option \<Rightarrow> int option" where
  "truthy_num v = (case v of None \<Rightarrow> None | Some n \<Rightarrow> if n = 0 then None else Some n)"

definition truthy_str :: "string option \<Rightarrow> string option" where
  "truthy_str v = (case v of None \<Rightarrow> None | Some s \<Rightarrow> if s = [] then None else Some s)"

subsection \<open>IEEE-754 double arithmetic\<close>

text \<open>
  The quotient of two integers is computed in double precision. \<open>fl64 p q\<close> is the double
  nearest to the fraction \<open>p / q\<close> (\<open>0 < q\<close>; round to nearest, ties to even; the normal
  range, where every quotient of two counts lies), as a mantissa and a binary exponent:
  \<open>(m, x)\<close> stands for \<open>m * 2 ^ x\<close>. \<^verbatim>\<open>Math.round\<close> rounds to the nearest integer with
  ties towards plus infinity.
\<close>

definition fl64 :: "int \<Rightarrow> int \<Rightarrow> int \<times> int" where
  "fl64 p q = (if p = 0 then (0, 0) else
     (let a = \<bar>p\<bar>;
          d = bitlen a - bitlen q;
          e = (if q * 2 ^ nat d \<le> a * 2 ^ nat (- d) then d else d - 1);
          n = a * 2 ^ nat (52 - e);
          dd = q * 2 ^ nat (e - 52);
          f = n div dd;
          r = n mod dd;
          m = (if 2 * r < dd then f else if dd < 2 * r then f + 1
               else if even f then f else f + 1)
      in (sgn p * m, e - 52)))"

text \<open>The double nearest to the product of the double \<open>(m, x)\<close> and the integer \<open>c\<close>.\<close>

definition fl64_times :: "int \<times> int \<Rightarrow> int \<Rightarrow> int \<times> int" where
  "fl64_times v c = (case v of (m, x) \<Rightarrow> fl64 (m * c * 2 ^ nat x) (2 ^ nat (- x)))"

definition Math_round :: "int \<times> int \<Rightarrow> int" where
  "Math_round v = (case v of (m, x) \<Rightarrow>
     (2 * m * 2 ^ nat x + 2 ^ nat (- x)) div (2 * 2 ^ nat (- x)))"

text \<open>\<^verbatim>\<open>Math.round(a / b)\<close> for an integer \<open>a\<close> and a count \<open>b\<close>.\<close>

definition Math_round_div :: "int \<Rightarrow> nat \<Rightarrow> js_number" where
  "Math_round_div a b =
     (if b = 0 then (if 0 < a then PosInfinity else if a < 0 then NegInfinity else NaN)
      else Num (Math_round (fl64 a (int b))))"

text \<open>\<^verbatim>\<open>Math.round((a / b) * 100)\<close> for an integer \<open>a\<close> and a count \<open>b\<close>.\<close>

definition Math_round_percent :: "int \<Rightarrow> nat \<Rightarrow> js_number" where
  "Math_round_percent a b =
     (if b = 0 then (if 0 < a then PosInfinity else if a < 0 then NegInfinity else NaN)
      else Num (Math_round (fl64_times (fl64 a (int b)) 100)))"

subsection \<open>Strings\<close>

text \<open>
  Strings are byte lists. \<^verbatim>\<open>toLowerCase\<close> is modelled on the ASCII letters; \<^verbatim>\<open>includes\<close>
  on strings (\<open>str_includes\<close>) is the substring test.
\<close>

definition lower_char :: "char \<Rightarrow> char" where
  "lower_char c =
     (case map_of (zip ''ABCDEFGHIJKLMNOPQRSTUVWXYZ'' ''abcdefghijklmnopqrstuvwxyz'') c of
        None \<Rightarrow> c | Some l \<Rightarrow> l)"

definition toLowerCase :: "string \<Rightarrow> string" where
  "toLowerCase s = map lower_char s"

fun str_includes :: "string \<Rightarrow> string \<Rightarrow> bool" where
  "str_includes [] sub = (sub = [])"
| "str_includes (c # cs) sub = (take (length sub) (c # cs) = sub \<or> str_includes cs sub)"

text \<open>
  \<^verbatim>\<open>parseInt(s)\<close> with no radix: leading white space is skipped, a sign is read, a
  \<^verbatim>\<open>0x\<close> prefix selects base 16, the longest prefix of digits is read as an integer and
  the result is the Number value of that integer; no digit at all gives NaN. Applied to a
  number, \<^verbatim>\<open>parseInt\<close> parses what \<^verbatim>\<open>toString\<close> prints for it.
\<close>

definition isWhiteSpace :: "char \<Rightarrow> bool" where
  "isWhiteSpace c = (c \<in> set [CHR '' '', CHR 0x09, CHR 0x0A, CHR 0x0B, CHR 0x0C, CHR 0x0D])"

definition digit_value :: "char \<Rightarrow> int option" where
  "digit_value c = map_of (zip ''0123456789'' [0, 1, 2, 3, 4, 5, 6, 7, 8, 9]) c"

definition hex_value :: "char \<Rightarrow> int option" where
  "hex_value c =
     map_of (zip ''0123456789abcdefABCDEF''
               [0, 1, 2, 3, 4, 5, 6, 7, 8, 9, 10, 11, 12, 13, 14, 15, 10, 11, 12, 13, 14, 15]) c"

definition parse_digits :: "(char \<Rightarrow> int option) \<Rightarrow> int \<Rightarrow> string \<Rightarrow> int option" where
  "parse_digits dv radix s =
     (let ds = takeWhile (\<lambda>c. dv c \<noteq> None) s in
      if ds = [] then None
      else Some (foldl (\<lambda>acc c. radix * acc + (case dv c of Some d \<Rightarrow> d | None \<Rightarrow> 0)) 0 ds))"

definition parseInt :: "string \<Rightarrow> js_number" where
  "parseInt s =
     (let t = dropWhile isWhiteSpace s;
          neg = (take 1 t = ''-'');
          u = (if take 1 t = ''-'' \<or> take 1 t = ''+'' then drop 1 t else t);
          r = (if take 2 u = ''0x'' \<or> take 2 u = ''0X''
               then parse_digits hex_value 16 (drop 2 u)
               else parse_digits digit_value 10 u)
      in case r of None \<Rightarrow> NaN | Some n \<Rightarrow> Number_of_int (if neg then - n else n))"

subsection \<open>Map, Set and Array.prototype.sort\<close>

text \<open>
  A JavaScript \<^verbatim>\<open>Map\<close> iterates in insertion order and \<^verbatim>\<open>set\<close> on a key that is present
  keeps the key's position: this is \<^const>\<open>AList.update\<close> on an association list, with
  \<^const>\<open>map_of\<close> as \<^verbatim>\<open>get\<close>. A \<^verbatim>\<open>Set\<close> is a list without duplicates.
  \<^verbatim>\<open>Array.prototype.sort\<close> is stable (ECMAScript 2019); with the comparator
  \<^verbatim>\<open>(a, b) => b.count - a.count\<close> it is the stable sort by descending count.
\<close>

definition Map_increment :: "('k \<times> nat) list \<Rightarrow> 'k \<Rightarrow> ('k \<times> nat) list" where
  "Map_increment m k = AList.update k ((case map_of m k of None \<Rightarrow> 0 | Some c \<Rightarrow> c) + 1) m"

definition Set_add :: "'a list \<Rightarrow> 'a \<Rightarrow> 'a list" where
  "Set_add s x = (if x \<in> set s then s else s @ [x])"

definition sort_desc :: "('a \<Rightarrow> nat) \<Rightarrow> 'a list \<Rightarrow> 'a list" where
  "sort_desc cnt xs = sort_key (\<lambda>x. - int (cnt x)) xs"

definition sort_asc :: "('a \<Rightarrow> int) \<Rightarrow> 'a list \<Rightarrow> 'a list" where
  "sort_asc k xs = sort_key k xs"

text \<open>
  \<^verbatim>\<open>get\<close> on a map whose keys are ids, with a key that \<^verbatim>\<open>parseInt\<close> returned: a key that
  is not finite is the key of no entry.
\<close>

definition Map_get :: "(int \<times> 'v) list \<Rightarrow> js_number \<Rightarrow> 'v option" where
  "Map_get m k = (case k of Num i \<Rightarrow> map_of m i | _ \<Rightarrow> None)"

text \<open>
  The comparison \<^verbatim>\<open>a <= b\<close> of two properties that may be \<^verbatim>\<open>undefined\<close>: \<^verbatim>\<open>undefined\<close>
  converts to NaN, and a comparison with NaN is false.
\<close>

definition js_le :: "nat option \<Rightarrow> nat option \<Rightarrow> bool" where
  "js_le a b =
     (case a of None \<Rightarrow> False | Some x \<Rightarrow> (case b of None \<Rightarrow> False | Some y \<Rightarrow> x \<le> y))"

section \<open>Data model\<close>

text \<open>
  A message of the raw tree, with the four properties the pipeline reads. The tree holds
  its messages in the order of \<^verbatim>\<open>Object.values(treeData.messages)\<close> and its topic
  definitions in the order of \<^verbatim>\<open>Object.entries(treeData.topics)\<close>, keyed by the property
  name. \<open>None\<close> is an absent property (\<^verbatim>\<open>undefined\<close>); for a topic definition it is
  also \<^verbatim>\<open>null\<close>. User ids, topic ids and time stamps are numbers that hold integers:
  the integers of the model are the values of doubles (\<open>nearest_double i = i\<close>), as every
  number of a parsed tree is.
\<close>

record message =
  fromUserId :: "int option"
  fromUserName :: "string option"
  topicId :: "int option"
  timestamp :: "int option"

record topic_def =
  td_name :: "string option"
  td_title :: "string option"

record raw_tree =
  messages :: "message list option"
  tree_topics :: "(string \<times> topic_def option) list option"

datatype query_type =
  channel_query | user_analysis | users_analysis | time_window | version_evolution | custom_query

text \<open>
  The query built by \<^verbatim>\<open>buildQueryData\<close>: \<open>users\<close> holds the values of the ticked
  check boxes (strings), \<open>customQuestion\<close> may be absent.
\<close>

record query_data =
  q_type :: query_type
  users :: "string list"
  customQuestion :: "string option"

record contributor =
  c_userId :: js_number
  c_username :: string
  c_messageCount :: nat

record topic =
  t_id :: int
  t_name :: string
  t_messageCount :: nat
  t_contributorCount :: nat
  t_contributors :: "contributor list"

record user_engagement =
  averageMessagesPerUser :: js_number
  averageTopicsPerUser :: js_number

record aggregated =
  messageCount :: nat
  topicCount :: nat
  activeUsers :: nat
  topics :: "topic list"
  topicsByPopularity :: "topic list"
  mostDiscussedTopic :: "topic option"
  userEngagement :: user_engagement

text \<open>
  The \<^verbatim>\<open>data\<close> property of a result is either the empty object \<^verbatim>\<open>{}\<close> or the
  aggregated statistics. Reading a property of the empty object gives \<^verbatim>\<open>undefined\<close>.
\<close>

datatype result_data = EmptyObject | Data aggregated

record metadata =
  meta_version :: int
  meta_timestamp :: string
  queryType :: query_type
  processingMethod :: string
  enhanced :: bool

record result =
  summary :: string
  data :: result_data
  insights :: "string list"
  metadata :: metadata

fun data_messageCount :: "result_data \<Rightarrow> nat option" where
  "data_messageCount EmptyObject = None"
| "data_messageCount (Data d) = Some (messageCount d)"

fun data_topicCount :: "result_data \<Rightarrow> nat option" where
  "data_topicCount EmptyObject = None"
| "data_topicCount (Data d) = Some (topicCount d)"

fun data_activeUsers :: "result_data \<Rightarrow> nat option" where
  "data_activeUsers EmptyObject = None"
| "data_activeUsers (Data d) = Some (activeUsers d)"

fun data_topics :: "result_data \<Rightarrow> topic list option" where
  "data_topics EmptyObject = None"
| "data_topics (Data d) = Some (topics d)"

section \<open>Topic names\<close>

text \<open>
  \<^verbatim>\<open>this.topicNames\<close> is a \<^verbatim>\<open>Map\<close> that lives as long as the page: it is the state the
  pipeline threads. Only \<^verbatim>\<open>has\<close>, \<^verbatim>\<open>get\<close> and \<^verbatim>\<open>set\<close> are used on it, so it is a
  partial function; its keys are results of \<^verbatim>\<open>parseInt\<close>, and a map takes NaN for a
  key like any other.
\<close>

type_synonym name_cache = "js_number \<Rightarrow> string option"

definition extractTopicNames_step :: "string \<times> topic_def option \<Rightarrow> name_cache \<Rightarrow> name_cache" where
  "extractTopicNames_step entry cache = (case entry of (key, topicData) \<Rightarrow>
     (case topicData of
        None \<Rightarrow> cache
      | Some td \<Rightarrow>
          (case truthy_str (td_name td) of
             Some n \<Rightarrow> cache(parseInt key \<mapsto> n)
           | None \<Rightarrow>
               (case truthy_str (td_title td) of
                  Some t \<Rightarrow> cache(parseInt key \<mapsto> t)
                | None \<Rightarrow> cache))))"

definition extractTopicNames :: "name_cache \<Rightarrow> raw_tree \<Rightarrow> name_cache" where
  "extractTopicNames cache treeData =
     (case tree_topics treeData of
        None \<Rightarrow> cache
      | Some entries \<Rightarrow> fold extractTopicNames_step entries cache)"

definition fallbackNames :: "(int \<times> string) list" where
  "fallbackNames =
     [(0, ''General Discussion''), (1, ''Technical Implementation''),
      (2, ''Community Governance''), (3, ''Market Analysis''), (4, ''Product Features''),
      (5, ''DeFi Protocols''), (6, ''Security & Audits''), (7, ''Token Economics''),
      (8, ''Development Updates''), (9, ''User Support'')]"

definition getTopicName :: "name_cache \<Rightarrow> int \<Rightarrow> string" where
  "getTopicName cache tid =
     (case cache (Num tid) of
        Some n \<Rightarrow> n
      | None \<Rightarrow>
          (case map_of fallbackNames tid of
             Some n \<Rightarrow> n
           | None \<Rightarrow> ''Topic '' @ string_of_number (Num tid)))"

section \<open>The aggregator: processTreeLocally\<close>

subsection \<open>User filter\<close>

text \<open>
  \<^verbatim>\<open>userIds.includes(message.fromUserId)\<close>: an absent id is in no list of parsed ids.
\<close>

definition userIds_includes :: "js_number list \<Rightarrow> int option \<Rightarrow> bool" where
  "userIds_includes userIds v = (case v of None \<Rightarrow> False | Some u \<Rightarrow> Num u \<in> set userIds)"

definition filterMessages :: "string list \<Rightarrow> message list \<Rightarrow> message list" where
  "filterMessages selectedUsers ms =
     (if 0 < length selectedUsers
      then (let userIds = map parseInt selectedUsers
            in filter (\<lambda>m. userIds_includes userIds (fromUserId m)) ms)
      else ms)"

subsection \<open>The two passes over the messages\<close>

text \<open>The topic of a message that is neither \<^verbatim>\<open>undefined\<close> nor the sentinel -1.\<close>

definition real_topic :: "message \<Rightarrow> int option" where
  "real_topic m = (case topicId m of None \<Rightarrow> None | Some t \<Rightarrow> if t = - 1 then None else Some t)"

text \<open>First pass: the maps \<^verbatim>\<open>users\<close>, \<^verbatim>\<open>userMessageCounts\<close> and \<^verbatim>\<open>userTopics\<close>.\<close>

definition users_step :: "message \<Rightarrow> (int \<times> string) list \<Rightarrow> (int \<times> string) list" where
  "users_step m us =
     (case truthy_num (fromUserId m) of
        None \<Rightarrow> us
      | Some u \<Rightarrow> (case truthy_str (fromUserName m) of
                    None \<Rightarrow> us
                  | Some n \<Rightarrow> AList.update u n us))"

definition userMessageCounts_step :: "message \<Rightarrow> (int \<times> nat) list \<Rightarrow> (int \<times> nat) list" where
  "userMessageCounts_step m cs =
     (case truthy_num (fromUserId m) of
        None \<Rightarrow> cs
      | Some u \<Rightarrow> (case truthy_str (fromUserName m) of
                    None \<Rightarrow> cs
                  | Some n \<Rightarrow> Map_increment cs u))"

definition userTopics_step :: "message \<Rightarrow> (int \<times> int list) list \<Rightarrow> (int \<times> int list) list" where
  "userTopics_step m ut =
     (case truthy_num (fromUserId m) of
        None \<Rightarrow> ut
      | Some u \<Rightarrow> (case truthy_str (fromUserName m) of
                    None \<Rightarrow> ut
                  | Some n \<Rightarrow> (case real_topic m of
                                None \<Rightarrow> ut
                              | Some t \<Rightarrow> AList.update u
                                  (Set_add (case map_of ut u of None \<Rightarrow> [] | Some s \<Rightarrow> s) t) ut)))"

definition collect_users :: "message list \<Rightarrow> (int \<times> string) list" where
  "collect_users ms = fold users_step ms []"

definition collect_userMessageCounts :: "message list \<Rightarrow> (int \<times> nat) list" where
  "collect_userMessageCounts ms = fold userMessageCounts_step ms []"

definition collect_userTopics :: "message list \<Rightarrow> (int \<times> int list) list" where
  "collect_userTopics ms = fold userTopics_step ms []"

text \<open>Second pass: the maps \<^verbatim>\<open>topicMessageCounts\<close> and \<^verbatim>\<open>topicUsers\<close>.\<close>

definition topicMessageCounts_step :: "message \<Rightarrow> (int \<times> nat) list \<Rightarrow> (int \<times> nat) list" where
  "topicMessageCounts_step m tc =
     (case real_topic m of None \<Rightarrow> tc | Some t \<Rightarrow> Map_increment tc t)"

definition topicUsers_step ::
  "message \<Rightarrow> (int \<times> (int \<times> nat) list) list \<Rightarrow> (int \<times> (int \<times> nat) list) list" where
  "topicUsers_step m tu =
     (case real_topic m of
        None \<Rightarrow> tu
      | Some t \<Rightarrow>
          (let userMap = (case map_of tu t of None \<Rightarrow> [] | Some um \<Rightarrow> um)
           in AList.update t
                (case truthy_num (fromUserId m) of
                   None \<Rightarrow> userMap
                 | Some u \<Rightarrow> Map_increment userMap u) tu))"

definition collect_topicMessageCounts :: "message list \<Rightarrow> (int \<times> nat) list" where
  "collect_topicMessageCounts ms = fold topicMessageCounts_step ms []"

definition collect_topicUsers :: "message list \<Rightarrow> (int \<times> (int \<times> nat) list) list" where
  "collect_topicUsers ms = fold topicUsers_step ms []"

subsection \<open>Topic data\<close>

text \<open>
  The keys of a topic's user map are the ids of the messages, which are numbers.
  \<^verbatim>\<open>parseInt(userId)\<close> prints the id and parses what was printed: this gives the id back
  when it is printed in plain notation, and its leading digit when it is printed in
  exponent notation. The name of a contributor is the one that \<^verbatim>\<open>users\<close> holds for the
  parsed id, or \<^verbatim>\<open>User <id>\<close> when the map has none, behind an \<^verbatim>\<open>@\<close>.
\<close>

definition make_contributor :: "(int \<times> string) list \<Rightarrow> int \<times> nat \<Rightarrow> contributor" where
  "make_contributor us entry = (case entry of (uid, userMessageCount) \<Rightarrow>
     \<lparr>c_userId = parseInt (string_of_number (Num uid)),
      c_username = ''@'' @ (case truthy_str (Map_get us (parseInt (string_of_number (Num uid)))) of
                             Some n \<Rightarrow> n
                           | None \<Rightarrow> ''User '' @ string_of_number (Num uid)),
      c_messageCount = userMessageCount\<rparr>)"

definition make_topic ::
  "name_cache \<Rightarrow> (int \<times> string) list \<Rightarrow> (int \<times> (int \<times> nat) list) list \<Rightarrow> int \<times> nat \<Rightarrow> topic" where
  "make_topic cache us topicUsers entry = (case entry of (tid, cnt) \<Rightarrow>
     (let topicUserMap = (case map_of topicUsers tid of None \<Rightarrow> [] | Some um \<Rightarrow> um);
          contribs = sort_desc c_messageCount (map (make_contributor us) topicUserMap)
      in \<lparr>t_id = tid,
          t_name = getTopicName cache tid,
          t_messageCount = cnt,
          t_contributorCount = length contribs,
          t_contributors = contribs\<rparr>))"

definition build_topicsData :: "name_cache \<Rightarrow> message list \<Rightarrow> topic list" where
  "build_topicsData cache ms =
     sort_desc t_messageCount
       (map (make_topic cache (collect_users ms) (collect_topicUsers ms))
            (collect_topicMessageCounts ms))"

section \<open>The insight generator\<close>

text \<open>The double quote character, which the insight templates put around names.\<close>

definition dq :: string where
  "dq = [CHR 0x22]"

text \<open>The comparison \<^verbatim>\<open>x > n\<close> of a number with an integer: NaN compares false.\<close>

fun js_greater :: "js_number \<Rightarrow> int \<Rightarrow> bool" where
  "js_greater (Num i) n = (n < i)"
| "js_greater PosInfinity n = True"
| "js_greater NegInfinity n = False"
| "js_greater NaN n = False"

subsection \<open>The analyzers of a custom question\<close>

record common_topic =
  ct_topicId :: int
  ct_name :: string
  user1Messages :: nat
  user2Messages :: nat
  difference :: nat

definition userTopicMap_step ::
  "message \<Rightarrow> (string \<times> (int \<times> nat) list) list \<Rightarrow> (string \<times> (int \<times> nat) list) list" where
  "userTopicMap_step m utm =
     (case truthy_str (fromUserName m) of
        None \<Rightarrow> utm
      | Some n \<Rightarrow>
          (case real_topic m of
             None \<Rightarrow> utm
           | Some t \<Rightarrow>
               AList.update n
                 (Map_increment (case map_of utm n of None \<Rightarrow> [] | Some ut \<Rightarrow> ut) t) utm))"

definition is_mentioned :: "string \<Rightarrow> string \<Rightarrow> bool" where
  "is_mentioned question username =
     (let lowerUsername = toLowerCase username
      in str_includes question lowerUsername
         \<or> str_includes question (''@'' @ lowerUsername)
         \<or> str_includes question (''@@'' @ lowerUsername))"

definition common_topics ::
  "name_cache \<Rightarrow> (int \<times> nat) list \<Rightarrow> (int \<times> nat) list \<Rightarrow> common_topic list" where
  "common_topics cache user1Topics user2Topics =
     concat (map (\<lambda>(tid, count1).
        (case map_of user2Topics tid of
           None \<Rightarrow> []
         | Some count2 \<Rightarrow>
             [\<lparr>ct_topicId = tid, ct_name = getTopicName cache tid,
               user1Messages = count1, user2Messages = count2,
               difference = nat \<bar>int count1 - int count2\<bar>\<rparr>])) user1Topics)"

definition analyzeUserDisagreements ::
  "name_cache \<Rightarrow> message list \<Rightarrow> (int \<times> string) list \<Rightarrow> string \<Rightarrow> string list" where
  "analyzeUserDisagreements cache ms us question =
     (let usernames = map snd us;
          mentionedUsers = filter (is_mentioned question) usernames
      in case mentionedUsers of
           u1 # u2 # rest \<Rightarrow>
             (let userTopicMap = fold userTopicMap_step ms [];
                  user1Topics = (case map_of userTopicMap u1 of None \<Rightarrow> [] | Some ut \<Rightarrow> ut);
                  user2Topics = (case map_of userTopicMap u2 of None \<Rightarrow> [] | Some ut \<Rightarrow> ut);
                  commonTopics = common_topics cache user1Topics user2Topics
              in if 0 < length commonTopics then
                   [''Users '' @ u1 @ '' and '' @ u2 @ '' both discussed ''
                      @ string_of_nat (length commonTopics) @ '' common topics'']
                   @ (case filter (\<lambda>ct. 2 < difference ct) commonTopics of
                        [] \<Rightarrow> []
                      | topDifference # others \<Rightarrow>
                          [''Biggest engagement difference in '' @ dq @ ct_name topDifference @ dq
                             @ '': '' @ u1 @ '' ('' @ string_of_nat (user1Messages topDifference)
                             @ '' msgs) vs '' @ u2 @ '' (''
                             @ string_of_nat (user2Messages topDifference) @ '' msgs)''])
                   @ (case sort_desc snd user1Topics of
                        [] \<Rightarrow> []
                      | user1Focus # r1 \<Rightarrow>
                          (case sort_desc snd user2Topics of
                             [] \<Rightarrow> []
                           | user2Focus # r2 \<Rightarrow>
                               if fst user1Focus \<noteq> fst user2Focus then
                                 [''Different focus areas: '' @ u1 @ '' primarily discusses '' @ dq
                                    @ getTopicName cache (fst user1Focus) @ dq @ '', '' @ u2
                                    @ '' focuses on '' @ dq @ getTopicName cache (fst user2Focus)
                                    @ dq]
                               else []))
                 else
                   [''Users '' @ u1 @ '' and '' @ u2
                      @ '' have not participated in the same topic discussions''])
         | _ \<Rightarrow>
             [''To analyze user disagreements, please specify user names in your question (e.g., ''
                @ dq @ ''How do @James_T81 and @joybaruarobin differ?'' @ dq @ '')''])"

definition analyzeTrendingTopics :: "topic list \<Rightarrow> string list" where
  "analyzeTrendingTopics topicsData =
     (case topicsData of
        [] \<Rightarrow> []
      | topTopic # rest \<Rightarrow>
          [''Most trending topic: '' @ dq @ t_name topTopic @ dq @ '' with ''
             @ string_of_nat (t_messageCount topTopic) @ '' recent messages'',
           ''Trending engagement: '' @ string_of_nat (t_contributorCount topTopic)
             @ '' active contributors in this topic'']
          @ (case rest of
               [] \<Rightarrow> []
             | secondTopic # others \<Rightarrow>
                 [''Trend strength: '' @ dq @ t_name topTopic @ dq @ '' leads by ''
                    @ string_of_number
                        (Num (int (t_messageCount topTopic) - int (t_messageCount secondTopic)))
                    @ '' messages over '' @ dq @ t_name secondTopic @ dq]))"

definition engagement_step :: "message \<Rightarrow> (string \<times> nat) list \<Rightarrow> (string \<times> nat) list" where
  "engagement_step m cs =
     (case truthy_num (fromUserId m) of
        None \<Rightarrow> cs
      | Some u \<Rightarrow> (case truthy_str (fromUserName m) of
                    None \<Rightarrow> cs
                  | Some n \<Rightarrow> Map_increment cs n))"

definition analyzeUserEngagement :: "message list \<Rightarrow> (int \<times> string) list \<Rightarrow> string list" where
  "analyzeUserEngagement ms us =
     (let totalMessages = length ms;
          avgMessagesPerUser =
            (if 0 < length us then Math_round_div (int totalMessages) (length us) else Num 0);
          sortedUsers = sort_desc snd (fold engagement_step ms [])
      in [''Overall engagement: '' @ string_of_number avgMessagesPerUser
            @ '' average messages per user'']
         @ (case sortedUsers of
              [] \<Rightarrow> []
            | first # rest \<Rightarrow>
                [''Most engaged user: @'' @ fst first @ '' with '' @ string_of_nat (snd first)
                   @ '' messages'']
                @ (case rest of
                     [] \<Rightarrow> []
                   | second # others \<Rightarrow>
                       [''Second most engaged: @'' @ fst second @ '' with ''
                          @ string_of_nat (snd second) @ '' messages''])))"

definition analyzeSentimentPatterns :: "message list \<Rightarrow> topic list \<Rightarrow> string list" where
  "analyzeSentimentPatterns ms topicsData =
     (let topicDiversity = length topicsData;
          avgMessagesPerTopic = Math_round_div (int (length ms)) topicDiversity
      in (if 5 < topicDiversity then
            [''High topic diversity ('' @ string_of_nat topicDiversity
               @ '' topics) suggests active, varied discussions'',
             ''Community sentiment: Engaged and diverse conversation patterns'']
          else
            [''Focused discussions around '' @ string_of_nat topicDiversity @ '' main topics'',
             ''Community sentiment: Concentrated engagement on key issues''])
         @ (if js_greater avgMessagesPerTopic 10 then
              [''High engagement intensity: '' @ string_of_number avgMessagesPerTopic
                 @ '' average messages per topic'']
            else
              [''Moderate engagement: '' @ string_of_number avgMessagesPerTopic
                 @ '' average messages per topic'']))"

definition topic_line :: "string \<Rightarrow> topic \<Rightarrow> string" where
  "topic_line label t =
     label @ dq @ t_name t @ dq @ '' - '' @ string_of_nat (t_messageCount t)
       @ '' messages from '' @ string_of_nat (t_contributorCount t) @ '' contributors''"

definition analyzeConcerns :: "topic list \<Rightarrow> string list" where
  "analyzeConcerns topicsData =
     (let concernTopics = filter (\<lambda>t.
            str_includes (t_name t) ''Governance'' \<or> str_includes (t_name t) ''Technical''
            \<or> str_includes (t_name t) ''Security'' \<or> str_includes (t_name t) ''Audit'') topicsData
      in if 0 < length concernTopics then map (topic_line ''Concern area: '') concernTopics
         else [''No major concern topics identified in current discussions''])"

definition analyzeProtocolDiscussions :: "topic list \<Rightarrow> string list" where
  "analyzeProtocolDiscussions topicsData =
     (let protocolTopics = filter (\<lambda>t.
            str_includes (t_name t) ''DeFi'' \<or> str_includes (t_name t) ''Protocol''
            \<or> str_includes (t_name t) ''Token'') topicsData
      in if 0 < length protocolTopics
         then map (topic_line ''Protocol discussion: '') protocolTopics
         else [''Limited protocol-specific discussions in current dataset''])"

text \<open>
  \<open>localeDate ts\<close> stands for \<^verbatim>\<open>new Date(ts * 1000).toLocaleDateString()\<close>, which the
  browser's locale and time zone determine. \<^verbatim>\<open>Math.ceil(n * 0.25)\<close> is exact in double
  arithmetic: it is \<open>(n + 3) div 4\<close>.
\<close>

definition analyzeTemporalPatterns :: "(int \<Rightarrow> string) \<Rightarrow> message list \<Rightarrow> string list" where
  "analyzeTemporalPatterns localeDate ms =
     (let messagesWithTimestamps =
            sort_asc fst (concat (map (\<lambda>m. case truthy_num (timestamp m) of
                                            None \<Rightarrow> [] | Some ts \<Rightarrow> [(ts, m)]) ms))
      in case messagesWithTimestamps of
           [] \<Rightarrow>
             [''Temporal analysis: '' @ string_of_nat (length ms)
                @ '' messages available for time-based analysis'']
         | earliest # rest \<Rightarrow>
             (let n = length messagesWithTimestamps;
                  recentMessages = drop (n - (n + 3) div 4) messagesWithTimestamps;
                  recentTopics = remdups (filter (\<lambda>i. i \<noteq> Some (- 1))
                                   (map (\<lambda>tm. topicId (snd tm)) recentMessages))
              in [''Time range: '' @ localeDate (fst earliest) @ '' to ''
                    @ localeDate (fst (last messagesWithTimestamps)),
                  ''Recent activity: '' @ string_of_nat (length recentMessages)
                    @ '' messages across '' @ string_of_nat (length recentTopics) @ '' topics'']))"

definition analyzeGeneralQuestion ::
  "message list \<Rightarrow> topic list \<Rightarrow> (int \<times> string) list \<Rightarrow> string \<Rightarrow> string list" where
  "analyzeGeneralQuestion ms topicsData us question =
     [''Custom analysis for: '' @ dq @ question @ dq,
      ''Analyzing '' @ string_of_nat (length ms) @ '' messages across ''
        @ string_of_nat (length topicsData) @ '' topics from '' @ string_of_nat (length us)
        @ '' users'']
     @ (case topicsData of
          [] \<Rightarrow> []
        | topTopic # rest \<Rightarrow>
            [''Primary topic: '' @ dq @ t_name topTopic @ dq @ '' with ''
               @ string_of_nat (t_messageCount topTopic) @ '' messages from ''
               @ string_of_nat (t_contributorCount topTopic) @ '' contributors''])"

text \<open>The keyword router: the first branch whose keywords occur in the question wins.\<close>

definition generateCustomQueryInsights ::
  "name_cache \<Rightarrow> (int \<Rightarrow> string) \<Rightarrow> message list \<Rightarrow> topic list \<Rightarrow> (int \<times> string) list
     \<Rightarrow> string \<Rightarrow> string list" where
  "generateCustomQueryInsights cache localeDate ms topicsData us cq =
     (let question = toLowerCase cq in
      if str_includes question ''differ''
         \<and> (str_includes question ''opinion'' \<or> str_includes question ''disagree''
              \<or> str_includes question ''preferences'')
      then analyzeUserDisagreements cache ms us question
      else if str_includes question ''trending'' \<or> str_includes question ''popular''
      then analyzeTrendingTopics topicsData
      else if str_includes question ''engaged'' \<or> str_includes question ''active''
      then analyzeUserEngagement ms us
      else if str_includes question ''sentiment'' \<or> str_includes question ''mood''
      then analyzeSentimentPatterns ms topicsData
      else if str_includes question ''concern'' \<or> str_includes question ''issue''
              \<or> str_includes question ''problem''
      then analyzeConcerns topicsData
      else if str_includes question ''defi'' \<or> str_includes question ''protocol''
      then analyzeProtocolDiscussions topicsData
      else if str_includes question ''when'' \<or> str_includes question ''time''
              \<or> str_includes question ''recent''
      then analyzeTemporalPatterns localeDate ms
      else analyzeGeneralQuestion ms topicsData us question)"

subsection \<open>generateInsights\<close>

text \<open>
  The contributor the insight names is the first contributor of the first topic. The sum
  \<^verbatim>\<open>totalMessages\<close> that the source computes over all users is never read and is left out.
\<close>

definition contributor_messages :: "js_number \<Rightarrow> topic \<Rightarrow> nat" where
  "contributor_messages uid t =
     (case find (\<lambda>c. strict_equal (c_userId c) uid) (t_contributors t) of
        None \<Rightarrow> 0 | Some c \<Rightarrow> c_messageCount c)"

definition most_active_insight :: "topic list \<Rightarrow> topic \<Rightarrow> string list" where
  "most_active_insight topicsData topTopic =
     (case t_contributors topTopic of
        [] \<Rightarrow> []
      | topContributor # rest \<Rightarrow>
          (let userTotalMessages =
                 foldl (\<lambda>acc t. acc + contributor_messages (c_userId topContributor) t) 0 topicsData;
               userTopicCount =
                 length (filter (\<lambda>t. list_ex (\<lambda>c. strict_equal (c_userId c)
                                                         (c_userId topContributor))
                                        (t_contributors t)) topicsData)
           in [''Most active contributor: '' @ c_username topContributor @ '' (''
                 @ string_of_nat userTotalMessages @ '' messages across ''
                 @ string_of_nat userTopicCount @ '' topics)'']))"

definition query_insights ::
  "name_cache \<Rightarrow> (int \<Rightarrow> string) \<Rightarrow> message list \<Rightarrow> topic list \<Rightarrow> (int \<times> string) list
     \<Rightarrow> query_data \<Rightarrow> string list" where
  "query_insights cache localeDate ms topicsData us queryData =
     (case q_type queryData of
        channel_query \<Rightarrow> []
      | user_analysis \<Rightarrow>
          (if length (users queryData) = 1
           then [''Analysis focused on single user behavior and topic preferences''] else [])
      | users_analysis \<Rightarrow>
          (if 1 < length (users queryData)
           then [''Comparative analysis across '' @ string_of_nat (length (users queryData))
                   @ '' selected users'']
           else [])
      | time_window \<Rightarrow> [''Time-based analysis showing topic trends and activity patterns'']
      | version_evolution \<Rightarrow> [''Evolution analysis tracking topic changes over time'']
      | custom_query \<Rightarrow>
          (case truthy_str (customQuestion queryData) of
             Some cq \<Rightarrow>
               [''Custom analysis for question: '' @ dq @ cq @ dq]
               @ generateCustomQueryInsights cache localeDate ms topicsData us cq
           | None \<Rightarrow> [''Custom query selected but no question provided'']))"

definition generateInsights ::
  "name_cache \<Rightarrow> (int \<Rightarrow> string) \<Rightarrow> message list \<Rightarrow> topic list \<Rightarrow> (int \<times> string) list
     \<Rightarrow> query_data \<Rightarrow> string list" where
  "generateInsights cache localeDate ms topicsData us queryData =
     (case topicsData of
        [] \<Rightarrow> [''No topics identified in the conversation data'']
      | topTopic # rest \<Rightarrow>
          [''Most discussed: '' @ dq @ t_name topTopic @ dq @ '' with ''
             @ string_of_nat (t_messageCount topTopic) @ '' messages from ''
             @ string_of_nat (t_contributorCount topTopic) @ '' contributors'',
           string_of_nat (length topicsData) @ '' distinct topics identified across all conversations'',
           string_of_nat (length us) @ '' users actively participating with an average of ''
             @ string_of_number (Math_round_div (int (length ms)) (length us)) @ '' messages each'',
           ''Topic engagement: Average ''
             @ string_of_number (Math_round_div (int (length ms)) (length topicsData))
             @ '' messages per topic'']
          @ most_active_insight topicsData topTopic
          @ query_insights cache localeDate ms topicsData us queryData)"

subsection \<open>processTreeLocally\<close>

text \<open>
  The state is the topic-name cache; the environment is the browser's date format and the
  reading of the clock, \<open>now\<close>, which is \<^verbatim>\<open>new Date().toISOString()\<close>.
\<close>

definition make_metadata :: "string \<Rightarrow> query_data \<Rightarrow> int \<Rightarrow> metadata" where
  "make_metadata now queryData version =
     \<lparr>meta_version = version, meta_timestamp = now, queryType = q_type queryData,
      processingMethod = ''local'', enhanced = False\<rparr>"

definition aggregate :: "message list \<Rightarrow> topic list \<Rightarrow> aggregated" where
  "aggregate ms topicsData =
     (let us = collect_users ms; userTopics = collect_userTopics ms
      in \<lparr>messageCount = length ms,
          topicCount = length topicsData,
          activeUsers = length us,
          topics = topicsData,
          topicsByPopularity = take 5 topicsData,
          mostDiscussedTopic = (case topicsData of [] \<Rightarrow> None | t # rest \<Rightarrow> Some t),
          userEngagement =
            \<lparr>averageMessagesPerUser =
               (if 0 < length us then Math_round_div (int (length ms)) (length us) else Num 0),
             averageTopicsPerUser =
               (if 0 < length us
                then Math_round_div (int (foldl (\<lambda>acc s. acc + length (snd s)) 0 userTopics))
                       (length us)
                else Num 0)\<rparr>\<rparr>)"

definition processTreeLocally ::
  "name_cache \<Rightarrow> (int \<Rightarrow> string) \<Rightarrow> string \<Rightarrow> raw_tree option \<Rightarrow> query_data \<Rightarrow> int
     \<Rightarrow> result \<times> name_cache" where
  "processTreeLocally cache localeDate now treeData queryData version =
     (case (case treeData of None \<Rightarrow> None
            | Some tree \<Rightarrow> (case messages tree of None \<Rightarrow> None | Some ms \<Rightarrow> Some (tree, ms))) of
        None \<Rightarrow>
          (\<lparr>summary = ''No data available for processing'',
            data = EmptyObject,
            insights = [''No messages found in the tree data''],
            metadata = make_metadata now queryData version\<rparr>, cache)
      | Some (tree, allMessages) \<Rightarrow>
          (let cache' = extractTopicNames cache tree;
               ms = filterMessages (users queryData) allMessages;
               topicsData = build_topicsData cache' ms
           in (\<lparr>summary = ''Users discussing '' @ string_of_nat (length topicsData)
                   @ '' topics with '' @ string_of_nat (length ms) @ '' total messages'',
                data = Data (aggregate ms topicsData),
                insights = generateInsights cache' localeDate ms topicsData (collect_users ms)
                             queryData,
                metadata = make_metadata now queryData version\<rparr>, cache')))"

section \<open>The delta engine: generateDeltaAnalysis\<close>

text \<open>
  The function builds the lists of new, removed and changed topics and renders them as
  HTML; the model returns the three lists. \<^verbatim>\<open>new Map(topics.map(t => [t.id, t]))\<close> inserts
  the topics in order. Reading \<^verbatim>\<open>.topics.map\<close> of a result whose data is the empty object
  throws a TypeError.
\<close>

datatype error = TypeError

record changed_topic =
  ch_topic :: topic
  change :: int
  changePercent :: js_number
  previousCount :: nat

record delta =
  newTopics :: "topic list"
  removedTopics :: "topic list"
  changedTopics :: "changed_topic list"

definition topics_Map :: "topic list \<Rightarrow> (int \<times> topic) list" where
  "topics_Map ts = fold (\<lambda>t m. AList.update (t_id t) t m) ts []"

definition changed_entry :: "(int \<times> topic) list \<Rightarrow> int \<times> topic \<Rightarrow> changed_topic list" where
  "changed_entry secondTopics entry = (case entry of (i, firstTopic) \<Rightarrow>
     (case map_of secondTopics i of
        None \<Rightarrow> []
      | Some secondTopic \<Rightarrow>
          if t_messageCount firstTopic \<noteq> t_messageCount secondTopic then
            (let chg = int (t_messageCount secondTopic) - int (t_messageCount firstTopic)
             in [\<lparr>ch_topic = secondTopic,
                  change = chg,
                  changePercent = Math_round_percent chg (t_messageCount firstTopic),
                  previousCount = t_messageCount firstTopic\<rparr>])
          else []))"

definition delta_of :: "topic list \<Rightarrow> topic list \<Rightarrow> delta" where
  "delta_of ts1 ts2 =
     (let firstTopics = topics_Map ts1; secondTopics = topics_Map ts2
      in \<lparr>newTopics = map snd (filter (\<lambda>e. map_of firstTopics (fst e) = None) secondTopics),
          removedTopics = map snd (filter (\<lambda>e. map_of secondTopics (fst e) = None) firstTopics),
          changedTopics = concat (map (changed_entry secondTopics) firstTopics)\<rparr>)"

definition generateDeltaAnalysis :: "result \<Rightarrow> result \<Rightarrow> error + delta" where
  "generateDeltaAnalysis firstResults secondResults =
     (case data_topics (data firstResults) of
        None \<Rightarrow> Inl TypeError
      | Some ts1 \<Rightarrow>
          (case data_topics (data secondResults) of
             None \<Rightarrow> Inl TypeError
           | Some ts2 \<Rightarrow> Inr (delta_of ts1 ts2)))"

section \<open>Notions used to state the properties\<close>

text \<open>The elements of a list in the order of their first occurrence.\<close>

definition encounter_order :: "'a list \<Rightarrow> 'a list" where
  "encounter_order xs = rev (remdups (rev xs))"

text \<open>
  The sequence of topic ids the aggregator sees, the user a message is attributed to in
  the \<^verbatim>\<open>users\<close> map (a truthy id with a truthy name), and the messages of one topic.
\<close>

definition topic_ids :: "message list \<Rightarrow> int list" where
  "topic_ids ms = List.map_filter real_topic ms"

definition named_user :: "message \<Rightarrow> int option" where
  "named_user m =
     (case truthy_num (fromUserId m) of
        None \<Rightarrow> None
      | Some u \<Rightarrow> (case truthy_str (fromUserName m) of None \<Rightarrow> None | Some n \<Rightarrow> Some u))"

definition messages_of_topic :: "int \<Rightarrow> message list \<Rightarrow> message list" where
  "messages_of_topic t ms = filter (\<lambda>m. real_topic m = Some t) ms"

definition sender_ids :: "message list \<Rightarrow> int list" where
  "sender_ids ms = List.map_filter (\<lambda>m. truthy_num (fromUserId m)) ms"

text \<open>A counting map built by one pass: the generic form of the accumulators.\<close>

definition count_step :: "('a \<Rightarrow> 'k option) \<Rightarrow> 'a \<Rightarrow> ('k \<times> nat) list \<Rightarrow> ('k \<times> nat) list" where
  "count_step key m acc = (case key m of None \<Rightarrow> acc | Some k \<Rightarrow> Map_increment acc k)"

text \<open>
  What the aggregator reports for one topic, stated from the messages: the number of
  messages a user sent in a topic, the contributors of a topic, and the topic's entry.
\<close>

definition sent_in_topic :: "int \<Rightarrow> int \<Rightarrow> message list \<Rightarrow> nat" where
  "sent_in_topic u t ms =
     length (filter (\<lambda>m. truthy_num (fromUserId m) = Some u) (messages_of_topic t ms))"

definition contributors_of :: "message list \<Rightarrow> int \<Rightarrow> contributor list" where
  "contributors_of ms t =
     sort_desc c_messageCount
       (map (\<lambda>u. make_contributor (collect_users ms) (u, sent_in_topic u t ms))
            (encounter_order (sender_ids (messages_of_topic t ms))))"

definition topic_of :: "name_cache \<Rightarrow> message list \<Rightarrow> int \<Rightarrow> topic" where
  "topic_of cache ms t =
     \<lparr>t_id = t, t_name = getTopicName cache t,
      t_messageCount = length (messages_of_topic t ms),
      t_contributorCount = length (contributors_of ms t),
      t_contributors = contributors_of ms t\<rparr>"

text \<open>
  The percentage of a change as the specification words it, in exact arithmetic:
  \<open>change / earlier * 100\<close> rounded to the nearest integer, a half rounded up as
  \<^verbatim>\<open>Math.round\<close> does.
\<close>

definition exact_changePercent :: "int \<Rightarrow> nat \<Rightarrow> int" where
  "exact_changePercent chg earlier = (200 * chg + int earlier) div (2 * int earlier)"

section \<open>Inputs of the examples\<close>

text \<open>
  A message with a user name and one without, a tree that holds only messages, and the
  query \<^verbatim>\<open>{type: 'channel_query', users: []}\<close>.
\<close>

definition named_message :: "int \<Rightarrow> string \<Rightarrow> int \<Rightarrow> message" where
  "named_message u n t =
     \<lparr>fromUserId = Some u, fromUserName = Some n, topicId = Some t, timestamp = None\<rparr>"

definition unnamed_message :: "int \<Rightarrow> int \<Rightarrow> message" where
  "unnamed_message u t =
     \<lparr>fromUserId = Some u, fromUserName = None, topicId = Some t, timestamp = None\<rparr>"

definition tree_of :: "message list \<Rightarrow> raw_tree" where
  "tree_of ms = \<lparr>messages = Some ms, tree_topics = None\<rparr>"

definition channel_query_all :: query_data where
  "channel_query_all = \<lparr>q_type = channel_query, users = [], customQuestion = None\<rparr>"

section \<open>Printing and parsing integers\<close>

lemma digit_cases: "k < 10 \<Longrightarrow> k \<in> {0, 1, 2, 3, 4, 5, 6, 7, 8, 9 :: nat}"
  by auto

lemma digit_value_digit_char: "k < 10 \<Longrightarrow> digit_value (digit_char k) = Some (int k)"
  by (drule digit_cases) (auto simp: digit_value_def digit_char_def)

lemma digit_char_plain:
  assumes "k < 10"
  shows "\<not> isWhiteSpace (digit_char k)" "digit_char k \<noteq> CHR ''-''" "digit_char k \<noteq> CHR ''+''"
    "digit_char k \<noteq> CHR ''x''" "digit_char k \<noteq> CHR ''X''"
  using digit_cases [OF assms] by (auto simp: digit_char_def isWhiteSpace_def)

lemma digits_of_digits:
  "0 \<le> n \<Longrightarrow> digits_of n \<noteq> [] \<and> (\<forall>c \<in> set (digits_of n). \<exists>k < 10. c = digit_char k)"
proof (induction n rule: digits_of.induct)
  case (1 n)
  show ?case
  proof (cases "n < 10")
    case True
    have "\<exists>k < 10. digit_char (nat n) = digit_char k"
      using True 1(2) by (intro exI [of _ "nat n"]) simp
    then show ?thesis
      using True by (subst (1 2) digits_of.simps) simp
  next
    case False
    have "\<exists>k < 10. digit_char (nat (n mod 10)) = digit_char k"
      by (rule exI [of _ "nat (n mod 10)"]) simp
    moreover have "0 \<le> n div 10"
      using 1(2) by simp
    ultimately show ?thesis
      using False 1(1) by (subst (1 2) digits_of.simps) auto
  qed
qed

lemma value_digits_of:
  "0 \<le> n \<Longrightarrow>
     foldl (\<lambda>acc c. 10 * acc + (case digit_value c of Some d \<Rightarrow> d | None \<Rightarrow> 0)) 0 (digits_of n) = n"
proof (induction n rule: digits_of.induct)
  case (1 n)
  show ?case
  proof (cases "n < 10")
    case True
    then show ?thesis
      using 1(2) by (subst digits_of.simps) (simp add: digit_value_digit_char)
  next
    case False
    have "nat (n mod 10) < 10" by simp
    moreover have "0 \<le> n div 10"
      using 1(2) by simp
    ultimately show ?thesis
      using False 1(1) by (subst digits_of.simps) (simp add: digit_value_digit_char)
  qed
qed

lemma parse_digits_digits_of:
  assumes "0 \<le> n"
  shows "parse_digits digit_value 10 (digits_of n @ replicate e (CHR ''0''))
           = Some (n * 10 ^ e)"
proof -
  let ?f = "\<lambda>acc c. 10 * acc + (case digit_value c of Some d \<Rightarrow> d | None \<Rightarrow> 0)"
  have z: "digit_value (CHR ''0'') = Some 0"
    by (simp add: digit_value_def)
  have "\<forall>c \<in> set (digits_of n @ replicate e (CHR ''0'')). digit_value c \<noteq> None"
    using digits_of_digits [OF assms] z by (auto simp: digit_value_digit_char)
  then have tw: "takeWhile (\<lambda>c. digit_value c \<noteq> None) (digits_of n @ replicate e (CHR ''0''))
                   = digits_of n @ replicate e (CHR ''0'')"
    by (simp only: takeWhile_eq_all_conv)
  have ne: "digits_of n @ replicate e (CHR ''0'') \<noteq> []"
    using digits_of_digits [OF assms] by simp
  have zeros: "foldl ?f a (replicate k (CHR ''0'')) = a * 10 ^ k" for a k
    by (induction k arbitrary: a) (simp_all add: z)
  show ?thesis
    unfolding parse_digits_def Let_def tw using ne
    by (simp add: value_digits_of [OF assms] zeros)
qed

lemma digits_of_shape:
  assumes "0 \<le> n"
  obtains c cs where "digits_of n @ replicate e (CHR ''0'') = c # cs" "\<not> isWhiteSpace c"
    "c \<noteq> CHR ''-''" "c \<noteq> CHR ''+''" "take 1 cs \<noteq> ''x''" "take 1 cs \<noteq> ''X''"
proof -
  let ?s = "digits_of n @ replicate e (CHR ''0'')"
  have all: "\<forall>d \<in> set ?s. \<exists>k < 10. d = digit_char k"
  proof
    fix d assume "d \<in> set ?s"
    then consider "d \<in> set (digits_of n)" | "d = CHR ''0''"
      by auto
    then show "\<exists>k < 10. d = digit_char k"
    proof cases
      case 1
      then show ?thesis using digits_of_digits [OF assms] by auto
    next
      case 2
      then show ?thesis by (intro exI [of _ 0]) (simp add: digit_char_def)
    qed
  qed
  obtain c cs where eq: "?s = c # cs"
    using digits_of_digits [OF assms] by (cases ?s) auto
  have c: "\<exists>k < 10. c = digit_char k"
    using all eq by auto
  have cs: "\<forall>d \<in> set cs. \<exists>k < 10. d = digit_char k"
    using all eq by auto
  have "take 1 cs \<noteq> ''x''" "take 1 cs \<noteq> ''X''"
    using cs by (cases cs; auto simp: digit_char_plain)+
  then show ?thesis
    using that [OF eq] c by (auto simp: digit_char_plain)
qed

lemma parseInt_digits:
  assumes "0 \<le> n"
  shows "parseInt (digits_of n @ replicate e (CHR ''0'')) = Number_of_int (n * 10 ^ e)"
    and "parseInt (''-'' @ digits_of n @ replicate e (CHR ''0'')) = Number_of_int (- (n * 10 ^ e))"
proof -
  obtain c cs where s: "digits_of n @ replicate e (CHR ''0'') = c # cs" "\<not> isWhiteSpace c"
    "c \<noteq> CHR ''-''" "c \<noteq> CHR ''+''" "take 1 cs \<noteq> ''x''" "take 1 cs \<noteq> ''X''"
    by (rule digits_of_shape [OF assms])
  have not_hex: "take 2 (c # cs) \<noteq> ''0x''" "take 2 (c # cs) \<noteq> ''0X''"
    using s(5,6) by (cases cs; simp)+
  have p: "parse_digits digit_value 10 (c # cs) = Some (n * 10 ^ e)"
    using parse_digits_digits_of [OF assms, of e] s(1) by simp
  have t: "dropWhile isWhiteSpace (c # cs) = c # cs"
    using s(2) by simp
  have k: "take 1 (c # cs) \<noteq> ''-''" "take 1 (c # cs) \<noteq> ''+''"
    using s(3,4) by simp_all
  have "parseInt (c # cs) = Number_of_int (n * 10 ^ e)"
    by (simp only: parseInt_def Let_def t k not_hex p simp_thms if_True if_False option.case)
  then show "parseInt (digits_of n @ replicate e (CHR ''0'')) = Number_of_int (n * 10 ^ e)"
    by (simp only: s(1))
  have t': "dropWhile isWhiteSpace (CHR ''-'' # c # cs) = CHR ''-'' # c # cs"
    by (simp add: isWhiteSpace_def)
  have k': "take 1 (CHR ''-'' # c # cs) = ''-''" "drop 1 (CHR ''-'' # c # cs) = c # cs"
    by simp_all
  have "parseInt (CHR ''-'' # c # cs) = Number_of_int (- (n * 10 ^ e))"
    by (simp only: parseInt_def Let_def t' k' not_hex p simp_thms if_True if_False option.case)
  then show "parseInt (''-'' @ digits_of n @ replicate e (CHR ''0'')) = Number_of_int (- (n * 10 ^ e))"
    by (simp add: s(1))
qed

lemma parseInt_string_of_int: "parseInt (string_of_int i) = Number_of_int i"
proof (cases "i < 0")
  case True
  then show ?thesis
    using parseInt_digits(2) [of "- i" 0] by (simp add: string_of_int_def)
next
  case False
  then show ?thesis
    using parseInt_digits(1) [of i 0] by (simp add: string_of_int_def)
qed

subsection \<open>Numbers beyond the safe integers\<close>

text \<open>
  A digit string beyond \<open>2 ^ 53\<close> is parsed to the nearest double; a number from
  \<open>10 ^ 21\<close> on is printed in exponent notation, so that \<^verbatim>\<open>parseInt\<close> of it is its leading
  digit: the contributor entry of such a user id carries that digit as its id, and the
  name that \<^verbatim>\<open>users\<close> holds for that digit.
\<close>

lemma printing_and_parsing_examples:
  "string_of_number (Num (10 ^ 21)) = ''1e+21''
   \<and> string_of_number (Num (- 1500000000000000000000)) = ''-1.5e+21''
   \<and> string_of_number (Num (2 ^ 64)) = ''18446744073709552000''
   \<and> string_of_number (Num (nearest_double (10 ^ 23))) = ''1e+23''
   \<and> string_of_number (Num 9007199254740992) = ''9007199254740992''
   \<and> parseInt ''9007199254740993'' = Num 9007199254740992
   \<and> parseInt (string_of_number (Num (10 ^ 21))) = Num 1
   \<and> parseInt (string_of_number (Num (2 ^ 64))) = Num (2 ^ 64)
   \<and> parseInt ''12px'' = Num 12 \<and> parseInt '' -0x1F'' = Num (- 31) \<and> parseInt ''px'' = NaN"
  by code_simp

lemma contributor_of_large_id:
  "map (\<lambda>t. (t_id t, map (\<lambda>c. (c_userId c, c_username c, c_messageCount c)) (t_contributors t)))
     (build_topicsData Map.empty
        [named_message 1 ''alice'' 5, unnamed_message (10 ^ 21) 5])
   = [(5, [(Num 1, ''@alice'', 1), (Num 1, ''@alice'', 1)])]
   \<and> map (\<lambda>t. (t_id t, map (\<lambda>c. (c_userId c, c_username c, c_messageCount c)) (t_contributors t)))
     (build_topicsData Map.empty [unnamed_message (10 ^ 21) 5])
   = [(5, [(Num 1, ''@User 1e+21'', 1)])]"
  by code_simp

subsection \<open>Safe integers\<close>

text \<open>
  An integer below \<open>2 ^ 53\<close> in magnitude is a double, is printed in plain decimal
  notation and is parsed back to itself.
\<close>

lemma bitlen_nonneg: "0 \<le> bitlen n"
  by (induction n rule: bitlen.induct) (subst bitlen.simps, simp)

lemma bitlen_upper: "0 \<le> k \<Longrightarrow> n < 2 ^ nat k \<Longrightarrow> bitlen n \<le> k"
proof (induction n arbitrary: k rule: bitlen.induct)
  case (1 n)
  show ?case
  proof (cases "n \<le> 0")
    case True
    then show ?thesis using 1(2) by (subst bitlen.simps) simp
  next
    case False
    then have k: "0 < k"
      using 1(2,3) by (cases "k = 0") auto
    then have "nat k = Suc (nat (k - 1))"
      by simp
    then have "n div 2 < 2 ^ nat (k - 1)"
      using 1(3) by simp
    then have "bitlen (n div 2) \<le> k - 1"
      using 1(1) [OF False, of "k - 1"] k by simp
    then show ?thesis
      using False by (subst bitlen.simps) simp
  qed
qed

lemma bitlen_lower: "0 < n \<Longrightarrow> 2 ^ nat (bitlen n - 1) \<le> n"
proof (induction n rule: bitlen.induct)
  case (1 n)
  show ?case
  proof (cases "n div 2 \<le> 0")
    case True
    then have "bitlen (n div 2) = 0"
      by (subst bitlen.simps) simp
    then have "bitlen n = 1"
      using 1(2) by (subst bitlen.simps) simp
    then show ?thesis using 1(2) by simp
  next
    case False
    then have IH: "2 ^ nat (bitlen (n div 2) - 1) \<le> n div 2"
      using 1 by simp
    have pos: "0 < bitlen (n div 2)"
      using False bitlen_nonneg [of "n div 2 div 2"] by (subst bitlen.simps) simp
    have b: "bitlen n = 1 + bitlen (n div 2)"
      using 1(2) by (subst bitlen.simps) simp
    have "nat (bitlen n - 1) = Suc (nat (bitlen (n div 2) - 1))"
      using pos b by simp
    then have "(2 :: int) ^ nat (bitlen n - 1) = 2 * 2 ^ nat (bitlen (n div 2) - 1)"
      by simp
    also have "\<dots> \<le> 2 * (n div 2)"
      using IH by simp
    also have "\<dots> \<le> n"
      by simp
    finally show ?thesis .
  qed
qed

lemma nearest_double_safe: "\<bar>n\<bar> < 2 ^ 53 \<Longrightarrow> nearest_double n = n"
  using bitlen_upper [of 53 "\<bar>n\<bar>"] by (simp add: nearest_double_def Let_def)

lemma Number_of_int_safe:
  assumes "\<bar>n\<bar> < 2 ^ 53"
  shows "Number_of_int n = Num n"
proof -
  have "bitlen \<bar>n\<bar> \<le> 53"
    using assms by (intro bitlen_upper) simp_all
  then have "bitlen \<bar>n\<bar> \<le> 1024"
    by simp
  then show ?thesis
    by (simp only: Number_of_int_def nearest_double_safe [OF assms] Let_def if_True)
qed

lemma nearest_double_large:
  assumes "2 ^ 53 \<le> x"
  shows "2 ^ 53 \<le> nearest_double x"
proof (cases "bitlen \<bar>x\<bar> - 53 \<le> 0")
  case True
  then show ?thesis using assms by (simp add: nearest_double_def Let_def)
next
  case False
  define s where "s = nat (bitlen x - 53)"
  have x: "0 < x" "\<bar>x\<bar> = x"
    using assms by simp_all
  have s: "0 < s" "nat (bitlen x - 1) = 52 + s"
    using False x by (simp_all add: s_def)
  have "(2 :: int) ^ 52 * 2 ^ s \<le> x"
    using bitlen_lower [OF x(1)] s(2) by (simp add: power_add)
  then have "(2 ^ 52 * 2 ^ s) div 2 ^ s \<le> x div 2 ^ s"
    by (rule zdiv_mono1) simp
  then have f: "2 ^ 52 \<le> x div 2 ^ s"
    by simp
  define m where "m = (if x mod 2 ^ s < 2 ^ nat (bitlen x - 53 - 1) then x div 2 ^ s
      else if 2 ^ nat (bitlen x - 53 - 1) < x mod 2 ^ s then x div 2 ^ s + 1
      else if even (x div 2 ^ s) then x div 2 ^ s else x div 2 ^ s + 1)"
  have m: "2 ^ 52 \<le> m"
    using f by (simp add: m_def)
  have two: "(2 :: int) \<le> 2 ^ s"
    using s(1) by (cases s) simp_all
  have "(2 :: int) ^ 53 = 2 ^ 52 * 2"
    by simp
  also have "\<dots> \<le> m * 2 ^ s"
    using m two by (intro mult_mono) simp_all
  finally have "2 ^ 53 \<le> m * 2 ^ s" .
  moreover have "nearest_double x = m * 2 ^ s"
    using False x by (simp add: nearest_double_def Let_def m_def s_def)
  ultimately show ?thesis by simp
qed

lemma nearest_double_eq_safe:
  assumes "0 \<le> x" "v < 2 ^ 53" "nearest_double x = v"
  shows "x = v"
proof (cases "x < 2 ^ 53")
  case True
  then show ?thesis
    using assms nearest_double_safe [of x] by simp
next
  case False
  then show ?thesis
    using nearest_double_large [of x] assms by simp
qed

lemma shortest_from_safe:
  assumes "0 < v" "v < 2 ^ 53"
  shows "0 < fst (shortest_from v e)
       \<and> fst (shortest_from v e) * 10 ^ snd (shortest_from v e) = v"
  using assms
proof (induction v e rule: shortest_from.induct)
  case (1 v e)
  define s where "s = v div 10 ^ e"
  define lo where "lo \<longleftrightarrow> 0 < s \<and> nearest_double (s * 10 ^ e) = v"
  define hi where "hi \<longleftrightarrow> nearest_double ((s + 1) * 10 ^ e) = v"
  have unfold: "shortest_from v e =
      (if lo \<and> hi then
         (if v - s * 10 ^ e \<le> (s + 1) * 10 ^ e - v then (s, e) else (s + 1, e))
       else if lo then (s, e)
       else if hi then (s + 1, e)
       else if e = 0 then (v, 0)
       else shortest_from v (e - 1))"
    by (subst shortest_from.simps) (simp only: Let_def s_def lo_def hi_def)
  have s0: "0 \<le> s"
    using 1(2) by (simp add: s_def pos_imp_zdiv_nonneg_iff)
  have L: "0 < s \<and> s * 10 ^ e = v" if lo
  proof -
    have "nearest_double (s * 10 ^ e) = v"
      using that by (simp add: lo_def)
    moreover have "0 \<le> s * 10 ^ e"
      using s0 by simp
    ultimately have "s * 10 ^ e = v"
      using 1(3) by (rule nearest_double_eq_safe [rotated 2])
    then show ?thesis
      using that by (simp add: lo_def)
  qed
  have H: "0 < s + 1 \<and> (s + 1) * 10 ^ e = v" if hi
  proof -
    have "nearest_double ((s + 1) * 10 ^ e) = v"
      using that by (simp add: hi_def)
    moreover have "0 \<le> (s + 1) * 10 ^ e"
      using s0 by simp
    ultimately have "(s + 1) * 10 ^ e = v"
      using 1(3) by (rule nearest_double_eq_safe [rotated 2])
    then show ?thesis
      using s0 by simp
  qed
  show ?case
  proof (cases lo)
    case True
    then show ?thesis
      using L H by (cases hi) (simp_all add: unfold)
  next
    case nlo: False
    show ?thesis
    proof (cases hi)
      case True
      then show ?thesis
        using nlo H by (simp add: unfold)
    next
      case nhi: False
      show ?thesis
      proof (cases "e = 0")
        case True
        then show ?thesis
          unfolding unfold using nlo nhi 1(2) by simp
      next
        case False
        have "0 < fst (shortest_from v (e - 1))
            \<and> fst (shortest_from v (e - 1)) * 10 ^ snd (shortest_from v (e - 1)) = v"
          by (rule 1(1) [OF refl refl refl])
             (use nlo nhi False 1(2,3) in \<open>simp_all add: lo_def hi_def s_def\<close>)
        then show ?thesis
          unfolding unfold using nlo nhi False by simp
      qed
    qed
  qed
qed

lemma digits_of_times_10:
  assumes "0 < s"
  shows "digits_of (s * 10 ^ e) = digits_of s @ replicate e (CHR ''0'')"
proof (induction e)
  case 0
  show ?case by simp
next
  case (Suc e)
  have e1: "s * 10 ^ Suc e = s * 10 ^ e * 10"
    by simp
  have "0 < s * 10 ^ e"
    using assms by simp
  then have "10 \<le> s * 10 ^ e * 10"
    by simp
  then have "digits_of (s * 10 ^ e * 10) = digits_of (s * 10 ^ e) @ [digit_char 0]"
    by (subst digits_of.simps) simp
  then have "digits_of (s * 10 ^ Suc e) = digits_of s @ replicate e (CHR ''0'') @ ''0''"
    unfolding e1 using Suc by (simp add: digit_char_def)
  then show ?case
    by (simp only: replicate_append_same replicate_Suc [symmetric])
qed

lemma length_digits_of: "0 \<le> k \<Longrightarrow> n < 10 ^ nat k \<Longrightarrow> 0 < k \<Longrightarrow> int (length (digits_of n)) \<le> k"
proof (induction n arbitrary: k rule: digits_of.induct)
  case (1 n)
  show ?case
  proof (cases "n < 10")
    case True
    then show ?thesis using 1(4) by (subst digits_of.simps) simp
  next
    case False
    then have k: "1 < k"
      using 1(3,4) by (cases "k = 1") auto
    then have "nat k = Suc (nat (k - 1))"
      by simp
    then have "n div 10 < 10 ^ nat (k - 1)"
      using 1(3) by simp
    then have "int (length (digits_of (n div 10))) \<le> k - 1"
      using 1(1) [OF False, of "k - 1"] k by simp
    then show ?thesis
      using False by (subst digits_of.simps) simp
  qed
qed

lemma Number_digits_safe:
  assumes "0 < v" "v < 2 ^ 53"
  shows "Number_digits v = digits_of v"
proof -
  obtain s e where se: "shortest_from v (length (digits_of v)) = (s, e)"
    by (cases "shortest_from v (length (digits_of v))")
  have s: "0 < s" "s * 10 ^ e = v"
    using shortest_from_safe [OF assms, of "length (digits_of v)"] se by simp_all
  have d: "digits_of v = digits_of s @ replicate e (CHR ''0'')"
    using digits_of_times_10 [OF s(1), of e] s(2) by simp
  have "v < 10 ^ nat 16"
    using assms(2) by simp
  then have "int (length (digits_of v)) \<le> 16"
    by (intro length_digits_of) simp_all
  then have "length (digits_of s) + e \<le> 21"
    by (simp add: d)
  then show ?thesis
    unfolding Number_digits_def se by (simp add: Let_def d)
qed

lemma string_of_number_safe:
  assumes "\<bar>v\<bar> < 2 ^ 53"
  shows "string_of_number (Num v) = string_of_int v"
proof -
  have "digits_of 0 = ''0''"
    by (subst digits_of.simps) (simp add: digit_char_def)
  then show ?thesis
    using assms Number_digits_safe [of v] Number_digits_safe [of "- v"]
    by (simp add: string_of_int_def string_of_number.simps)
qed

lemma parseInt_string_of_number:
  assumes "\<bar>v\<bar> < 2 ^ 53"
  shows "parseInt (string_of_number (Num v)) = Num v"
  by (simp only: string_of_number_safe [OF assms] parseInt_string_of_int
      Number_of_int_safe [OF assms])

section \<open>Properties of the accumulators\<close>

subsection \<open>Lists in encounter order\<close>

lemma encounter_order_snoc:
  "encounter_order (xs @ [x]) = (if x \<in> set xs then encounter_order xs else encounter_order xs @ [x])"
  by (simp add: encounter_order_def)

lemma set_encounter_order: "set (encounter_order xs) = set xs"
  by (simp add: encounter_order_def)

lemma distinct_encounter_order: "distinct (encounter_order xs)"
  by (simp add: encounter_order_def)

lemma length_encounter_order: "length (encounter_order xs) = card (set xs)"
  using distinct_card [OF distinct_encounter_order, of xs] by (simp add: set_encounter_order)

lemma map_filter_snoc:
  "List.map_filter f (xs @ [x]) = List.map_filter f xs @ (case f x of None \<Rightarrow> [] | Some y \<Rightarrow> [y])"
  by (simp add: List.map_filter_def split: option.splits)

lemma set_map_filter: "set (List.map_filter f xs) = {y. \<exists>x \<in> set xs. f x = Some y}"
  by (induction xs) (auto split: option.splits)

subsection \<open>Counting maps\<close>

lemma keys_Map_increment:
  "map fst (Map_increment m k) = (if k \<in> set (map fst m) then map fst m else map fst m @ [k])"
  by (simp add: Map_increment_def update_keys)

lemma map_of_Map_increment:
  "map_of (Map_increment m k) k' =
     (if k' = k then Some ((case map_of m k of None \<Rightarrow> 0 | Some c \<Rightarrow> c) + 1) else map_of m k')"
  by (simp add: Map_increment_def update_conv')

lemma fold_count_step_snoc:
  "fold (count_step key) (ms @ [m]) [] = count_step key m (fold (count_step key) ms [])"
  by simp

lemma keys_count_fold:
  "map fst (fold (count_step key) ms []) = encounter_order (List.map_filter key ms)"
proof (induction ms rule: rev_induct)
  case Nil
  show ?case by (simp add: encounter_order_def List.map_filter_def)
next
  case (snoc m ms)
  show ?case
  proof (cases "key m")
    case None
    then show ?thesis using snoc by (simp add: count_step_def map_filter_snoc)
  next
    case (Some k)
    then show ?thesis
      using snoc by (simp add: count_step_def map_filter_snoc keys_Map_increment encounter_order_snoc
          set_encounter_order)
  qed
qed

lemma map_of_count_fold:
  "map_of (fold (count_step key) ms []) k =
     (if k \<in> set (List.map_filter key ms) then Some (length (filter (\<lambda>m. key m = Some k) ms)) else None)"
proof (induction ms rule: rev_induct)
  case Nil
  show ?case by (simp add: List.map_filter_def)
next
  case (snoc m ms)
  show ?case
  proof (cases "key m")
    case None
    then show ?thesis using snoc by (simp add: count_step_def map_filter_snoc)
  next
    case (Some k')
    then show ?thesis
      using snoc by (auto simp: count_step_def map_filter_snoc map_of_Map_increment set_map_filter)
  qed
qed

lemma distinct_keys_count_fold: "distinct (map fst (fold (count_step key) ms []))"
  by (simp add: keys_count_fold distinct_encounter_order)

lemma alist_by_keys:
  assumes "distinct (map fst al)"
  shows "al = map (\<lambda>k. (k, the (map_of al k))) (map fst al)"
proof -
  have "map (\<lambda>k. (k, the (map_of al k))) (map fst al) = map (\<lambda>p. p) al"
    unfolding map_map
  proof (rule map_cong [OF refl])
    fix p assume "p \<in> set al"
    then have "map_of al (fst p) = Some (snd p)"
      using assms by simp
    then show "((\<lambda>k. (k, the (map_of al k))) \<circ> fst) p = p"
      by simp
  qed
  then show ?thesis by simp
qed

lemma count_fold_char:
  "fold (count_step key) ms [] =
     map (\<lambda>k. (k, length (filter (\<lambda>m. key m = Some k) ms))) (encounter_order (List.map_filter key ms))"
proof -
  let ?al = "fold (count_step key) ms []"
  have "?al = map (\<lambda>k. (k, the (map_of ?al k))) (map fst ?al)"
    by (rule alist_by_keys) (rule distinct_keys_count_fold)
  also have "\<dots> = map (\<lambda>k. (k, length (filter (\<lambda>m. key m = Some k) ms)))
                     (encounter_order (List.map_filter key ms))"
    by (simp add: keys_count_fold map_of_count_fold set_encounter_order)
  finally show ?thesis .
qed

subsection \<open>The accumulators of the aggregator\<close>

lemma topicMessageCounts_step_eq: "topicMessageCounts_step = count_step real_topic"
  by (intro ext) (simp add: topicMessageCounts_step_def count_step_def)

lemma collect_topicMessageCounts_char:
  "collect_topicMessageCounts ms =
     map (\<lambda>t. (t, length (messages_of_topic t ms))) (encounter_order (topic_ids ms))"
  by (simp add: collect_topicMessageCounts_def topicMessageCounts_step_eq count_fold_char
      topic_ids_def messages_of_topic_def)

lemma messages_of_topic_snoc:
  "messages_of_topic t (ms @ [m]) =
     (if real_topic m = Some t then messages_of_topic t ms @ [m] else messages_of_topic t ms)"
  by (simp add: messages_of_topic_def)

lemma messages_of_topic_empty:
  "t \<notin> set (topic_ids ms) \<Longrightarrow> messages_of_topic t ms = []"
  by (auto simp: messages_of_topic_def topic_ids_def set_map_filter filter_empty_conv)

lemma map_of_collect_topicUsers:
  "map_of (collect_topicUsers ms) t =
     (if t \<in> set (topic_ids ms)
      then Some (fold (count_step (\<lambda>m. truthy_num (fromUserId m))) (messages_of_topic t ms) [])
      else None)"
proof (induction ms rule: rev_induct)
  case Nil
  show ?case by (simp add: collect_topicUsers_def topic_ids_def List.map_filter_def)
next
  case (snoc m ms)
  have step: "collect_topicUsers (ms @ [m]) = topicUsers_step m (collect_topicUsers ms)"
    by (simp add: collect_topicUsers_def)
  show ?case
  proof (cases "real_topic m")
    case None
    then show ?thesis
      using snoc by (simp add: step topicUsers_step_def topic_ids_def map_filter_snoc
          messages_of_topic_snoc)
  next
    case (Some t')
    show ?thesis
    proof (cases "t = t'")
      case False
      then show ?thesis
        using snoc Some by (simp add: step topicUsers_step_def topic_ids_def map_filter_snoc
            messages_of_topic_snoc update_conv' Let_def)
    next
      case True
      have um: "(case map_of (collect_topicUsers ms) t of None \<Rightarrow> [] | Some um \<Rightarrow> um) =
                  fold (count_step (\<lambda>m. truthy_num (fromUserId m))) (messages_of_topic t ms) []"
        using snoc by (simp add: messages_of_topic_empty)
      show ?thesis
        using Some True um
        by (simp add: step topicUsers_step_def topic_ids_def map_filter_snoc
            messages_of_topic_snoc update_conv' count_step_def Let_def split: option.splits)
    qed
  qed
qed

lemma make_topic_eq:
  assumes "t \<in> set (topic_ids ms)"
  shows "make_topic cache (collect_users ms) (collect_topicUsers ms)
           (t, length (messages_of_topic t ms)) = topic_of cache ms t"
  using assms
  by (simp add: make_topic_def topic_of_def contributors_of_def map_of_collect_topicUsers
      count_fold_char sender_ids_def sent_in_topic_def Let_def comp_def)

lemma build_topicsData_char:
  "build_topicsData cache ms =
     sort_desc t_messageCount (map (topic_of cache ms) (encounter_order (topic_ids ms)))"
proof -
  have "map (make_topic cache (collect_users ms) (collect_topicUsers ms))
          (collect_topicMessageCounts ms)
        = map (topic_of cache ms) (encounter_order (topic_ids ms))"
    unfolding collect_topicMessageCounts_char map_map
    by (rule map_cong [OF refl]) (simp add: make_topic_eq set_encounter_order)
  then show ?thesis by (simp add: build_topicsData_def)
qed

subsection \<open>The users map\<close>

lemma truthy_num_Some: "truthy_num v = Some u \<longleftrightarrow> v = Some u \<and> u \<noteq> 0"
  by (auto simp: truthy_num_def split: option.splits)

lemma truthy_str_Some: "truthy_str v = Some n \<longleftrightarrow> v = Some n \<and> n \<noteq> []"
  by (auto simp: truthy_str_def split: option.splits)

lemma truthy_str_None: "truthy_str v = None \<longleftrightarrow> v = None \<or> v = Some []"
  by (auto simp: truthy_str_def split: option.splits)

lemma real_topic_Some: "real_topic m = Some t \<longleftrightarrow> topicId m = Some t \<and> t \<noteq> - 1"
  by (auto simp: real_topic_def split: option.splits)

lemma named_user_Some:
  "named_user m = Some u \<longleftrightarrow>
     fromUserId m = Some u \<and> u \<noteq> 0 \<and> (\<exists>n. n \<noteq> [] \<and> fromUserName m = Some n)"
  by (auto simp: named_user_def truthy_num_def truthy_str_def split: option.splits if_splits)

lemma users_step_named:
  "users_step m us =
     (case named_user m of
        None \<Rightarrow> us
      | Some u \<Rightarrow> AList.update u (case fromUserName m of None \<Rightarrow> [] | Some n \<Rightarrow> n) us)"
  by (auto simp: users_step_def named_user_def truthy_str_def truthy_num_def
      split: option.splits if_splits)

lemma keys_collect_users:
  "map fst (collect_users ms) = encounter_order (List.map_filter named_user ms)"
proof (induction ms rule: rev_induct)
  case Nil
  show ?case by (simp add: collect_users_def encounter_order_def)
next
  case (snoc m ms)
  have step: "collect_users (ms @ [m]) = users_step m (collect_users ms)"
    by (simp add: collect_users_def)
  show ?case
    using snoc
    by (cases "named_user m")
       (simp_all add: step users_step_named map_filter_snoc update_keys encounter_order_snoc
          set_encounter_order)
qed

lemma length_collect_users:
  "length (collect_users ms) = card {u. \<exists>m \<in> set ms. named_user m = Some u}"
proof -
  have "length (collect_users ms) = length (map fst (collect_users ms))"
    by simp
  also have "\<dots> = card (set (List.map_filter named_user ms))"
    by (simp only: keys_collect_users length_encounter_order)
  finally show ?thesis by (simp add: set_map_filter)
qed

lemma map_of_collect_users_None:
  assumes "\<forall>m \<in> set ms. named_user m \<noteq> Some u"
  shows "map_of (collect_users ms) u = None"
proof -
  have "u \<notin> set (map fst (collect_users ms))"
    using assms by (simp add: keys_collect_users set_encounter_order set_map_filter)
  then show ?thesis
    by (simp add: map_of_eq_None_iff)
qed

subsection \<open>Stable sorting by descending count\<close>

lemma sorted_sort_desc: "sorted_wrt (\<lambda>a b. cnt b \<le> cnt a) (sort_desc cnt xs)"
proof -
  have "sorted (map (\<lambda>x. - int (cnt x)) (sort_key (\<lambda>x. - int (cnt x)) xs))"
    by (rule sorted_sort_key)
  then show ?thesis
    by (simp add: sort_desc_def sorted_map)
qed

lemma sort_desc_stable:
  "filter (\<lambda>x. cnt x = k) (sort_desc cnt xs) = filter (\<lambda>x. cnt x = k) xs"
  using sort_key_stable [of "\<lambda>x. - int (cnt x)" "- int k" xs]
  by (simp add: sort_desc_def)

lemma set_sort_desc: "set (sort_desc cnt xs) = set xs"
  by (simp add: sort_desc_def)

lemma length_sort_desc: "length (sort_desc cnt xs) = length xs"
  by (simp add: sort_desc_def)

subsection \<open>The result of processTreeLocally on a tree with messages\<close>

lemma data_processTreeLocally:
  assumes "messages tree = Some allMessages"
  shows "data (fst (processTreeLocally cache localeDate now (Some tree) queryData version)) =
           Data (aggregate (filterMessages (users queryData) allMessages)
                   (build_topicsData (extractTopicNames cache tree)
                      (filterMessages (users queryData) allMessages)))"
  using assms by (simp add: processTreeLocally_def Let_def)

lemma topics_aggregate: "topics (aggregate ms ts) = ts"
  by (simp add: aggregate_def Let_def)

lemma topicCount_aggregate: "topicCount (aggregate ms ts) = length ts"
  by (simp add: aggregate_def Let_def)

lemma messageCount_aggregate: "messageCount (aggregate ms ts) = length ms"
  by (simp add: aggregate_def Let_def)

lemma activeUsers_aggregate: "activeUsers (aggregate ms ts) = length (collect_users ms)"
  by (simp add: aggregate_def Let_def)

lemma length_build_topicsData:
  "length (build_topicsData cache ms) = card {t. \<exists>m \<in> set ms. real_topic m = Some t}"
  by (simp add: build_topicsData_char length_sort_desc length_encounter_order topic_ids_def
      set_map_filter)

lemma set_build_topicsData:
  "set (build_topicsData cache ms) = topic_of cache ms ` set (topic_ids ms)"
  by (simp add: build_topicsData_char set_sort_desc set_encounter_order)

lemma set_filterMessages_subset: "set (filterMessages selected ms) \<subseteq> set ms"
  by (auto simp: filterMessages_def Let_def)

lemma length_filterMessages_le: "length (filterMessages selected ms) \<le> length ms"
  by (simp add: filterMessages_def Let_def)

lemma filterMessages_no_users: "filterMessages [] ms = ms"
  by (simp add: filterMessages_def)

lemma finite_topics_seen: "finite {t. \<exists>m \<in> set ms. real_topic m = Some t}"
proof -
  have "{t. \<exists>m \<in> set ms. real_topic m = Some t} = set (topic_ids ms)"
    by (simp add: topic_ids_def set_map_filter)
  then show ?thesis by simp
qed

subsection \<open>The entries of the topic list\<close>

lemma t_id_topic_of: "t_id (topic_of cache ms t) = t"
  by (simp add: topic_of_def)

lemma t_messageCount_topic_of: "t_messageCount (topic_of cache ms t) = length (messages_of_topic t ms)"
  by (simp add: topic_of_def)

lemma t_contributors_topic_of: "t_contributors (topic_of cache ms t) = contributors_of ms t"
  by (simp add: topic_of_def)

lemma c_userId_make_contributor:
  "c_userId (make_contributor us (u, n)) = parseInt (string_of_number (Num u))"
  by (simp add: make_contributor_def)

lemma c_messageCount_make_contributor: "c_messageCount (make_contributor us (u, n)) = n"
  by (simp add: make_contributor_def)

lemma topics_stable:
  "map t_id (filter (\<lambda>t. t_messageCount t = k) (build_topicsData cache ms)) =
     filter (\<lambda>t. length (messages_of_topic t ms) = k) (encounter_order (topic_ids ms))"
  by (simp add: build_topicsData_char sort_desc_stable filter_map comp_def t_id_topic_of
      t_messageCount_topic_of)

lemma contributors_stable:
  "map c_userId (filter (\<lambda>c. c_messageCount c = k) (contributors_of ms t)) =
     map (\<lambda>u. parseInt (string_of_number (Num u)))
       (filter (\<lambda>u. sent_in_topic u t ms = k)
          (encounter_order (sender_ids (messages_of_topic t ms))))"
  by (simp add: contributors_of_def sort_desc_stable filter_map comp_def
      c_userId_make_contributor c_messageCount_make_contributor)

lemma messages_of_topic_filter:
  "t \<noteq> - 1 \<Longrightarrow> messages_of_topic t ms = filter (\<lambda>m. topicId m = Some t) ms"
  by (simp add: messages_of_topic_def real_topic_Some)

lemma sent_in_topic_filter:
  "t \<noteq> - 1 \<Longrightarrow> u \<noteq> 0 \<Longrightarrow>
     sent_in_topic u t ms = length (filter (\<lambda>m. fromUserId m = Some u \<and> topicId m = Some t) ms)"
  by (simp add: sent_in_topic_def messages_of_topic_filter truthy_num_Some conj_commute)

subsection \<open>The topic-name cache\<close>

lemma extractTopicNames_step_add:
  "extractTopicNames_step e c = c ++ extractTopicNames_step e Map.empty"
  by (cases e) (simp add: extractTopicNames_step_def split: option.splits)

lemma fold_extractTopicNames_step_add:
  "fold extractTopicNames_step es c = c ++ fold extractTopicNames_step es Map.empty"
proof (induction es rule: rev_induct)
  case Nil
  show ?case by simp
next
  case (snoc e es)
  have "fold extractTopicNames_step (es @ [e]) c
          = extractTopicNames_step e (c ++ fold extractTopicNames_step es Map.empty)"
    using snoc by simp
  also have "\<dots> = c ++ (fold extractTopicNames_step es Map.empty
                          ++ extractTopicNames_step e Map.empty)"
    by (subst extractTopicNames_step_add) simp
  also have "\<dots> = c ++ fold extractTopicNames_step (es @ [e]) Map.empty"
    using extractTopicNames_step_add [of e "fold extractTopicNames_step es Map.empty"]
    by simp
  finally show ?case .
qed

lemma map_add_twice: "(c ++ f) ++ f = c ++ (f :: 'a \<Rightarrow> 'b option)"
  by (rule ext) (simp add: map_add_def split: option.splits)

lemma extractTopicNames_idem:
  "extractTopicNames (extractTopicNames cache tree) tree = extractTopicNames cache tree"
proof (cases "tree_topics tree")
  case None
  then show ?thesis by (simp add: extractTopicNames_def)
next
  case (Some es)
  have "fold extractTopicNames_step es (fold extractTopicNames_step es cache)
          = fold extractTopicNames_step es cache"
    by (subst fold_extractTopicNames_step_add,
        subst (1 2) fold_extractTopicNames_step_add [of es cache]) (rule map_add_twice)
  then show ?thesis
    using Some by (simp add: extractTopicNames_def)
qed

subsection \<open>The maps of the delta engine\<close>

lemma update_append_new:
  "k \<notin> fst ` set al \<Longrightarrow> AList.update k v al = al @ [(k, v)]"
  by (induction al) auto

lemma topics_Map_distinct:
  "distinct (map t_id ts) \<Longrightarrow> topics_Map ts = map (\<lambda>t. (t_id t, t)) ts"
proof (induction ts rule: rev_induct)
  case Nil
  show ?case by (simp add: topics_Map_def)
next
  case (snoc t ts)
  then have IH: "topics_Map ts = map (\<lambda>t. (t_id t, t)) ts" and new: "t_id t \<notin> t_id ` set ts"
    by auto
  have "topics_Map (ts @ [t]) = AList.update (t_id t) t (topics_Map ts)"
    by (simp add: topics_Map_def)
  also have "\<dots> = topics_Map ts @ [(t_id t, t)]"
    using new by (intro update_append_new) (simp add: IH image_image)
  finally show ?case by (simp add: IH)
qed

lemma map_of_topics_None:
  "map_of (map (\<lambda>t. (t_id t, t)) ts) i = None \<longleftrightarrow> i \<notin> t_id ` set ts"
  by (simp add: map_of_eq_None_iff image_image)

lemma map_of_topics_Some:
  assumes "distinct (map t_id ts)"
  shows "map_of (map (\<lambda>t. (t_id t, t)) ts) i = Some t \<longleftrightarrow> t \<in> set ts \<and> t_id t = i"
proof -
  have "distinct (map fst (map (\<lambda>t. (t_id t, t)) ts))"
    using assms by (simp add: comp_def)
  then show ?thesis
    by (auto simp: map_of_eq_Some_iff)
qed

lemma newTopics_delta_of:
  assumes "distinct (map t_id ts1)" "distinct (map t_id ts2)"
  shows "newTopics (delta_of ts1 ts2) = filter (\<lambda>t. t_id t \<notin> t_id ` set ts1) ts2"
  using assms
  by (simp add: delta_of_def Let_def topics_Map_distinct filter_map comp_def map_of_topics_None)

lemma removedTopics_delta_of:
  assumes "distinct (map t_id ts1)" "distinct (map t_id ts2)"
  shows "removedTopics (delta_of ts1 ts2) = filter (\<lambda>t. t_id t \<notin> t_id ` set ts2) ts1"
  using assms
  by (simp add: delta_of_def Let_def topics_Map_distinct filter_map comp_def map_of_topics_None)

lemma set_changed_entry:
  "c \<in> set (changed_entry M (i, t1)) \<longleftrightarrow>
     (\<exists>t2. map_of M i = Some t2 \<and> t_messageCount t1 \<noteq> t_messageCount t2
         \<and> c = \<lparr>ch_topic = t2,
                change = int (t_messageCount t2) - int (t_messageCount t1),
                changePercent =
                  Math_round_percent (int (t_messageCount t2) - int (t_messageCount t1))
                    (t_messageCount t1),
                previousCount = t_messageCount t1\<rparr>)"
  by (cases "map_of M i") (auto simp: changed_entry_def Let_def)

lemma changedTopics_delta_of:
  assumes "distinct (map t_id ts1)" "distinct (map t_id ts2)"
  shows "c \<in> set (changedTopics (delta_of ts1 ts2)) \<longleftrightarrow>
           (\<exists>t1 \<in> set ts1. \<exists>t2 \<in> set ts2.
              t_id t1 = t_id t2 \<and> t_messageCount t1 \<noteq> t_messageCount t2
            \<and> c = \<lparr>ch_topic = t2,
                   change = int (t_messageCount t2) - int (t_messageCount t1),
                   changePercent =
                     Math_round_percent (int (t_messageCount t2) - int (t_messageCount t1))
                       (t_messageCount t1),
                   previousCount = t_messageCount t1\<rparr>)"
proof -
  have "c \<in> set (changedTopics (delta_of ts1 ts2)) \<longleftrightarrow>
          (\<exists>t1 \<in> set ts1. c \<in> set (changed_entry (map (\<lambda>t. (t_id t, t)) ts2) (t_id t1, t1)))"
    using assms by (simp add: delta_of_def Let_def topics_Map_distinct)
  also have "\<dots> \<longleftrightarrow> (\<exists>t1 \<in> set ts1. \<exists>t2. (t2 \<in> set ts2 \<and> t_id t2 = t_id t1)
              \<and> t_messageCount t1 \<noteq> t_messageCount t2
              \<and> c = \<lparr>ch_topic = t2,
                   change = int (t_messageCount t2) - int (t_messageCount t1),
                   changePercent =
                     Math_round_percent (int (t_messageCount t2) - int (t_messageCount t1))
                       (t_messageCount t1),
                   previousCount = t_messageCount t1\<rparr>)"
    by (simp only: set_changed_entry map_of_topics_Some [OF assms(2)])
  also have "\<dots> \<longleftrightarrow> (\<exists>t1 \<in> set ts1. \<exists>t2 \<in> set ts2.
              t_id t1 = t_id t2 \<and> t_messageCount t1 \<noteq> t_messageCount t2
            \<and> c = \<lparr>ch_topic = t2,
                   change = int (t_messageCount t2) - int (t_messageCount t1),
                   changePercent =
                     Math_round_percent (int (t_messageCount t2) - int (t_messageCount t1))
                       (t_messageCount t1),
                   previousCount = t_messageCount t1\<rparr>)"
    by (metis (no_types, lifting))
  finally show ?thesis .
qed

lemma map_t_id_build_topicsData:
  "mset (map t_id (build_topicsData cache ms)) = mset (encounter_order (topic_ids ms))"
  by (simp add: build_topicsData_char sort_desc_def multiset.map_comp comp_def t_id_topic_of)

lemma distinct_ids_build_topicsData: "distinct (map t_id (build_topicsData cache ms))"
  using mset_eq_imp_distinct_iff [OF map_t_id_build_topicsData, of cache ms]
  by (simp add: distinct_encounter_order)

lemma ids_build_topicsData: "t_id ` set (build_topicsData cache ms) = set (topic_ids ms)"
  by (simp add: set_build_topicsData image_image t_id_topic_of)

lemma count_build_topicsData:
  "t \<in> set (build_topicsData cache ms) \<Longrightarrow>
     t_messageCount t = length (messages_of_topic (t_id t) ms)"
  by (auto simp: set_build_topicsData t_id_topic_of t_messageCount_topic_of)

lemma length_filter_mset: "length (filter P xs) = size (filter_mset P (mset xs))"
  by (simp flip: mset_filter)

lemma messages_of_topic_add:
  assumes "mset ms2 = add_mset m (mset ms1)"
  shows "length (messages_of_topic t ms2) =
           (if real_topic m = Some t then 1 else 0) + length (messages_of_topic t ms1)"
  by (simp add: messages_of_topic_def length_filter_mset assms)

lemma topic_ids_add:
  assumes "mset ms2 = add_mset m (mset ms1)" and "real_topic m = Some t"
  shows "set (topic_ids ms2) = insert t (set (topic_ids ms1))"
proof -
  have "set ms2 = insert m (set ms1)"
    using assms(1) by (metis set_mset_add_mset_insert set_mset_mset)
  then show ?thesis
    using assms(2) by (auto simp: topic_ids_def set_map_filter)
qed

lemma filterMessages_add:
  assumes "mset all2 = add_mset m (mset all1)"
    and "selected = [] \<or> userIds_includes (map parseInt selected) (fromUserId m)"
  shows "mset (filterMessages selected all2) = add_mset m (mset (filterMessages selected all1))"
  using assms by (auto simp: filterMessages_def Let_def)

lemma filter_unique:
  assumes "distinct (map f xs)" and "x \<in> set xs"
  shows "filter (\<lambda>y. f y = f x) xs = [x]"
  using assms
proof (induction xs)
  case Nil
  then show ?case by simp
next
  case (Cons a xs)
  show ?case
  proof (cases "a = x")
    case True
    have "f x \<notin> f ` set xs"
      using Cons.prems(1) True by simp
    then have "\<forall>y \<in> set xs. f y \<noteq> f x"
      by (metis imageI)
    then have "filter (\<lambda>y. f y = f x) xs = []"
      by (simp add: filter_empty_conv)
    then show ?thesis using True by simp
  next
    case False
    then have "x \<in> set xs" using Cons.prems(2) by simp
    moreover have "f a \<noteq> f x"
      using Cons.prems(1) \<open>x \<in> set xs\<close> by auto
    ultimately show ?thesis
      using Cons by simp
  qed
qed

lemma delta_new_topic:
  assumes add: "mset ms2 = add_mset m (mset ms1)"
    and top: "real_topic m = Some tid"
    and unseen: "tid \<notin> set (topic_ids ms1)"
  shows "map (\<lambda>t. (t_id t, t_messageCount t))
           (newTopics (delta_of (build_topicsData c1 ms1) (build_topicsData c2 ms2)))
           = [(tid, 1)]"
    and "removedTopics (delta_of (build_topicsData c1 ms1) (build_topicsData c2 ms2)) = []"
    and "changedTopics (delta_of (build_topicsData c1 ms1) (build_topicsData c2 ms2)) = []"
proof -
  let ?ts1 = "build_topicsData c1 ms1" and ?ts2 = "build_topicsData c2 ms2"
  note d = distinct_ids_build_topicsData [of c1 ms1] distinct_ids_build_topicsData [of c2 ms2]
  have ids2: "set (topic_ids ms2) = insert tid (set (topic_ids ms1))"
    by (rule topic_ids_add [OF add top])
  have empty1: "messages_of_topic tid ms1 = []"
    by (rule messages_of_topic_empty [OF unseen])
  let ?x = "topic_of c2 ms2 tid"
  have x_in: "?x \<in> set ?ts2"
    by (simp add: set_build_topicsData ids2)
  have "filter (\<lambda>t. t_id t \<notin> t_id ` set ?ts1) ?ts2 = filter (\<lambda>t. t_id t = t_id ?x) ?ts2"
  proof (rule filter_cong [OF refl])
    fix t assume "t \<in> set ?ts2"
    then have "t_id t \<in> insert tid (set (topic_ids ms1))"
      using ids_build_topicsData [of c2 ms2] ids2 by auto
    then show "(t_id t \<notin> t_id ` set ?ts1) = (t_id t = t_id ?x)"
      using unseen by (auto simp: ids_build_topicsData t_id_topic_of)
  qed
  also have "\<dots> = [?x]"
    by (rule filter_unique [OF d(2) x_in])
  finally have "newTopics (delta_of ?ts1 ?ts2) = [?x]"
    by (simp add: newTopics_delta_of [OF d])
  then show "map (\<lambda>t. (t_id t, t_messageCount t)) (newTopics (delta_of ?ts1 ?ts2)) = [(tid, 1)]"
    using top by (simp add: t_id_topic_of t_messageCount_topic_of messages_of_topic_add [OF add]
        empty1)
  have "t_id ` set ?ts1 \<subseteq> t_id ` set ?ts2"
    by (simp only: ids_build_topicsData ids2) blast
  then have "\<forall>t \<in> set ?ts1. t_id t \<in> t_id ` set ?ts2"
    by blast
  then show "removedTopics (delta_of ?ts1 ?ts2) = []"
    by (simp add: removedTopics_delta_of [OF d] filter_empty_conv)
  have "c \<notin> set (changedTopics (delta_of ?ts1 ?ts2))" for c
  proof
    assume "c \<in> set (changedTopics (delta_of ?ts1 ?ts2))"
    then obtain t1 t2 where t: "t1 \<in> set ?ts1" "t2 \<in> set ?ts2" "t_id t1 = t_id t2"
        "t_messageCount t1 \<noteq> t_messageCount t2"
      unfolding changedTopics_delta_of [OF d] by blast
    have "t_id t1 \<in> set (topic_ids ms1)"
      using t(1) ids_build_topicsData [of c1 ms1] by auto
    then have "t_id t1 \<noteq> tid"
      using unseen by auto
    then have "length (messages_of_topic (t_id t1) ms2) = length (messages_of_topic (t_id t1) ms1)"
      using top by (simp add: messages_of_topic_add [OF add])
    then show False
      using t count_build_topicsData [OF t(1)] count_build_topicsData [OF t(2)] by simp
  qed
  then show "changedTopics (delta_of ?ts1 ?ts2) = []"
    by (cases "changedTopics (delta_of ?ts1 ?ts2)") auto
qed

lemma sender_of_topic:
  assumes "u \<in> set (sender_ids (messages_of_topic t ms))"
  shows "\<exists>m \<in> set ms. fromUserId m = Some u"
proof -
  have "\<exists>m \<in> set (messages_of_topic t ms). truthy_num (fromUserId m) = Some u"
    using assms by (simp add: sender_ids_def set_map_filter)
  then show ?thesis
    by (auto simp: messages_of_topic_def truthy_num_Some)
qed

subsection \<open>Trees without messages, and filters\<close>

lemma no_messages_result:
  assumes "treeData = None \<or> (\<exists>tree. treeData = Some tree \<and> messages tree = None)"
  shows "processTreeLocally cache localeDate now treeData queryData version =
           (\<lparr>summary = ''No data available for processing'',
             data = EmptyObject,
             insights = [''No messages found in the tree data''],
             metadata = \<lparr>meta_version = version, meta_timestamp = now,
                         queryType = q_type queryData, processingMethod = ''local'',
                         enhanced = False\<rparr>\<rparr>, cache)"
  using assms by (auto simp: processTreeLocally_def make_metadata_def)

lemma filter_monotone:
  assumes "messages tree = Some allMessages"
  shows "\<exists>dS dAll.
           data (fst (processTreeLocally cache localeDate now (Some tree) queryData version))
             = Data dS
         \<and> data (fst (processTreeLocally cache' localeDate' now' (Some tree)
                        (queryData\<lparr>users := []\<rparr>) version')) = Data dAll
         \<and> messageCount dS \<le> messageCount dAll
         \<and> topicCount dS \<le> topicCount dAll"
proof -
  let ?ms = "filterMessages (users queryData) allMessages"
  have "{t. \<exists>m \<in> set ?ms. real_topic m = Some t} \<subseteq> {t. \<exists>m \<in> set allMessages. real_topic m = Some t}"
    using set_filterMessages_subset [of "users queryData" allMessages] by blast
  then have "card {t. \<exists>m \<in> set ?ms. real_topic m = Some t}
               \<le> card {t. \<exists>m \<in> set allMessages. real_topic m = Some t}"
    by (rule card_mono [OF finite_topics_seen])
  then show ?thesis
    unfolding data_processTreeLocally [OF assms]
    by (simp add: topicCount_aggregate messageCount_aggregate length_build_topicsData
        filterMessages_no_users length_filterMessages_le)
qed

section \<open>A tree without messages\<close>

text \<open>
  C1: for a tree whose \<^verbatim>\<open>messages\<close> mapping is absent, processTreeLocally returns, without
  throwing, a well-formed result with all counts zero and the single insight "No messages
  found in the tree data". The call returns and the insight is the one stated, but the
  data of the result is the empty object: \<^verbatim>\<open>messageCount\<close>, \<^verbatim>\<open>topicCount\<close> and
  \<^verbatim>\<open>activeUsers\<close> are undefined rather than zero, and there is no topic list. The same
  holds when the tree itself is absent. A tree whose \<^verbatim>\<open>messages\<close> mapping is present and
  empty does get the three counts zero and an empty topic list.
\<close>

theorem C1_no_counts_without_messages:
  "fst (processTreeLocally Map.empty (\<lambda>ts. []) ''2024-01-01T00:00:00.000Z''
          (Some \<lparr>messages = None, tree_topics = None\<rparr>) channel_query_all 1)
     = \<lparr>summary = ''No data available for processing'',
        data = EmptyObject,
        insights = [''No messages found in the tree data''],
        metadata = \<lparr>meta_version = 1, meta_timestamp = ''2024-01-01T00:00:00.000Z'',
                    queryType = channel_query, processingMethod = ''local'',
                    enhanced = False\<rparr>\<rparr>
   \<and> data_messageCount (data (fst (processTreeLocally Map.empty (\<lambda>ts. [])
          ''2024-01-01T00:00:00.000Z'' (Some \<lparr>messages = None, tree_topics = None\<rparr>)
          channel_query_all 1))) = None
   \<and> data_topicCount (data (fst (processTreeLocally Map.empty (\<lambda>ts. [])
          ''2024-01-01T00:00:00.000Z'' (Some \<lparr>messages = None, tree_topics = None\<rparr>)
          channel_query_all 1))) = None
   \<and> data_activeUsers (data (fst (processTreeLocally Map.empty (\<lambda>ts. [])
          ''2024-01-01T00:00:00.000Z'' (Some \<lparr>messages = None, tree_topics = None\<rparr>)
          channel_query_all 1))) = None
   \<and> data_topics (data (fst (processTreeLocally Map.empty (\<lambda>ts. [])
          ''2024-01-01T00:00:00.000Z'' (Some \<lparr>messages = None, tree_topics = None\<rparr>)
          channel_query_all 1))) = None
   \<and> data (fst (processTreeLocally Map.empty (\<lambda>ts. []) ''2024-01-01T00:00:00.000Z''
          None channel_query_all 1)) = EmptyObject
   \<and> data (fst (processTreeLocally Map.empty (\<lambda>ts. []) ''2024-01-01T00:00:00.000Z''
          (Some \<lparr>messages = Some [], tree_topics = None\<rparr>) channel_query_all 1))
     = Data \<lparr>messageCount = 0, topicCount = 0, activeUsers = 0, topics = [],
         topicsByPopularity = [], mostDiscussedTopic = None,
         userEngagement = \<lparr>averageMessagesPerUser = Num 0, averageTopicsPerUser = Num 0\<rparr>\<rparr>"
  by code_simp

section \<open>Counts\<close>

text \<open>
  C2 (as stated): topicCount is the number of distinct topic ids other than -1 among the
  filtered messages, and activeUsers is the number of distinct \<^verbatim>\<open>fromUserId\<close> values among
  them. The second half fails: a message with a user id and no user name adds no user.
\<close>

theorem C2_counterexample:
  "\<not> (\<exists>d. data (fst (processTreeLocally Map.empty (\<lambda>ts. []) ''2024-01-01T00:00:00.000Z''
              (Some \<lparr>messages = Some [\<lparr>fromUserId = Some 7, fromUserName = None,
                                         topicId = Some 1, timestamp = None\<rparr>],
                     tree_topics = None\<rparr>)
              \<lparr>q_type = channel_query, users = [], customQuestion = None\<rparr> 1)) = Data d
          \<and> activeUsers d =
              card {u. \<exists>m \<in> set (filterMessages []
                          [\<lparr>fromUserId = Some 7, fromUserName = None,
                            topicId = Some 1, timestamp = None\<rparr>]). fromUserId m = Some u})"
proof -
  have users: "collect_users [\<lparr>fromUserId = Some 7, fromUserName = None,
                  topicId = Some 1, timestamp = None\<rparr>] = []"
    by code_simp
  have ids: "{u. \<exists>m \<in> set (filterMessages []
                          [\<lparr>fromUserId = Some 7, fromUserName = None,
                            topicId = Some 1, timestamp = None\<rparr>]). fromUserId m = Some u} = {7}"
    by (auto simp: filterMessages_def)
  show ?thesis
    by (simp add: processTreeLocally_def Let_def activeUsers_aggregate filterMessages_no_users
        users ids)
qed

text \<open>
  C2 (amended): on a tree with messages, topicCount is the number of distinct topic ids
  other than -1 (and defined) among the filtered messages, and activeUsers is the number
  of distinct non-zero \<^verbatim>\<open>fromUserId\<close> values among the filtered messages that carry a
  non-empty \<^verbatim>\<open>fromUserName\<close>.
\<close>

theorem C2_counts:
  assumes "messages tree = Some allMessages"
  shows "\<exists>d. data (fst (processTreeLocally cache localeDate now (Some tree) queryData version))
                = Data d
           \<and> topicCount d =
               card {t. t \<noteq> - 1 \<and> (\<exists>m \<in> set (filterMessages (users queryData) allMessages).
                                      topicId m = Some t)}
           \<and> activeUsers d =
               card {u. u \<noteq> 0 \<and> (\<exists>m \<in> set (filterMessages (users queryData) allMessages).
                                    fromUserId m = Some u
                                    \<and> (\<exists>n. n \<noteq> [] \<and> fromUserName m = Some n))}"
proof -
  let ?ms = "filterMessages (users queryData) allMessages"
  have t: "{t. \<exists>m \<in> set ?ms. real_topic m = Some t} =
           {t. t \<noteq> - 1 \<and> (\<exists>m \<in> set ?ms. topicId m = Some t)}"
    by (auto simp: real_topic_Some)
  have u: "{u. \<exists>m \<in> set ?ms. named_user m = Some u} =
           {u. u \<noteq> 0 \<and> (\<exists>m \<in> set ?ms. fromUserId m = Some u
                                    \<and> (\<exists>n. n \<noteq> [] \<and> fromUserName m = Some n))}"
    by (auto simp: named_user_Some)
  show ?thesis
    unfolding data_processTreeLocally [OF assms]
    by (simp add: topicCount_aggregate activeUsers_aggregate length_build_topicsData
        length_collect_users t u)
qed

theorem C2_counts_witness:
  "messages \<lparr>messages = Some [\<lparr>fromUserId = Some 1, fromUserName = Some ''alice'',
                                topicId = Some 0, timestamp = None\<rparr>,
                              \<lparr>fromUserId = Some 2, fromUserName = Some ''bob'',
                                topicId = Some 0, timestamp = None\<rparr>,
                              \<lparr>fromUserId = Some 1, fromUserName = Some ''alice'',
                                topicId = Some 1, timestamp = None\<rparr>,
                              \<lparr>fromUserId = Some 7, fromUserName = None,
                                topicId = Some (- 1), timestamp = None\<rparr>],
             tree_topics = None\<rparr>
     = Some [\<lparr>fromUserId = Some 1, fromUserName = Some ''alice'',
               topicId = Some 0, timestamp = None\<rparr>,
             \<lparr>fromUserId = Some 2, fromUserName = Some ''bob'',
               topicId = Some 0, timestamp = None\<rparr>,
             \<lparr>fromUserId = Some 1, fromUserName = Some ''alice'',
               topicId = Some 1, timestamp = None\<rparr>,
             \<lparr>fromUserId = Some 7, fromUserName = None,
               topicId = Some (- 1), timestamp = None\<rparr>]
   \<and> (\<exists>d. data (fst (processTreeLocally Map.empty (\<lambda>ts. []) ''2024-01-01T00:00:00.000Z''
              (Some \<lparr>messages = Some [\<lparr>fromUserId = Some 1, fromUserName = Some ''alice'',
                                         topicId = Some 0, timestamp = None\<rparr>,
                                       \<lparr>fromUserId = Some 2, fromUserName = Some ''bob'',
                                         topicId = Some 0, timestamp = None\<rparr>,
                                       \<lparr>fromUserId = Some 1, fromUserName = Some ''alice'',
                                         topicId = Some 1, timestamp = None\<rparr>,
                                       \<lparr>fromUserId = Some 7, fromUserName = None,
                                         topicId = Some (- 1), timestamp = None\<rparr>],
                      tree_topics = None\<rparr>)
              \<lparr>q_type = channel_query, users = [], customQuestion = None\<rparr> 1)) = Data d
          \<and> messageCount d = 4 \<and> topicCount d = 2 \<and> activeUsers d = 2
          \<and> topicCount d =
               card {t. t \<noteq> - 1 \<and> (\<exists>m \<in> set (filterMessages []
                     [\<lparr>fromUserId = Some 1, fromUserName = Some ''alice'',
                       topicId = Some 0, timestamp = None\<rparr>,
                      \<lparr>fromUserId = Some 2, fromUserName = Some ''bob'',
                       topicId = Some 0, timestamp = None\<rparr>,
                      \<lparr>fromUserId = Some 1, fromUserName = Some ''alice'',
                       topicId = Some 1, timestamp = None\<rparr>,
                      \<lparr>fromUserId = Some 7, fromUserName = None,
                       topicId = Some (- 1), timestamp = None\<rparr>]). topicId m = Some t)}
          \<and> activeUsers d =
               card {u. u \<noteq> 0 \<and> (\<exists>m \<in> set (filterMessages []
                     [\<lparr>fromUserId = Some 1, fromUserName = Some ''alice'',
                       topicId = Some 0, timestamp = None\<rparr>,
                      \<lparr>fromUserId = Some 2, fromUserName = Some ''bob'',
                       topicId = Some 0, timestamp = None\<rparr>,
                      \<lparr>fromUserId = Some 1, fromUserName = Some ''alice'',
                       topicId = Some 1, timestamp = None\<rparr>,
                      \<lparr>fromUserId = Some 7, fromUserName = None,
                       topicId = Some (- 1), timestamp = None\<rparr>]).
                     fromUserId m = Some u \<and> (\<exists>n. n \<noteq> [] \<and> fromUserName m = Some n))})"
  (is "?hyp \<and> (\<exists>d. ?res = Data d \<and> ?mc d \<and> ?tc d \<and> ?au d \<and> ?T d \<and> ?U d)")
proof -
  have h: ?hyp by simp
  obtain d where d: "?res = Data d" "?T d" "?U d"
    using C2_counts [OF h, of Map.empty "\<lambda>ts. []" "''2024-01-01T00:00:00.000Z''"
        "\<lparr>q_type = channel_query, users = [], customQuestion = None\<rparr>" 1]
    by auto
  have "data_messageCount ?res = Some 4" "data_topicCount ?res = Some 2"
    "data_activeUsers ?res = Some 2"
    by code_simp+
  then have "?mc d" "?tc d" "?au d"
    using d(1) by simp_all
  then show ?thesis
    using h d by blast
qed

section \<open>Averages and zero denominators\<close>

text \<open>
  C3: every average over a denominator that may be zero is special-cased, so that neither
  NaN nor Infinity reaches a field or an insight. The two averages of the result's
  \<^verbatim>\<open>userEngagement\<close> are guarded, but generateInsights divides the number of messages by
  the number of users without a guard. For a tree whose single message has a user id and
  a topic but no user name, no user is counted and the third insight reads "an average of
  Infinity messages each", while the guarded field \<^verbatim>\<open>averageMessagesPerUser\<close> of the same
  result is 0.
\<close>

theorem C3_unguarded_average_in_insight:
  "insights (fst (processTreeLocally Map.empty (\<lambda>ts. []) ''2024-01-01T00:00:00.000Z''
      (Some \<lparr>messages = Some [\<lparr>fromUserId = Some 7, fromUserName = None,
                                 topicId = Some 1, timestamp = None\<rparr>],
             tree_topics = None\<rparr>)
      \<lparr>q_type = channel_query, users = [], customQuestion = None\<rparr> 1))
   = [''Most discussed: '' @ dq @ ''Technical Implementation'' @ dq
        @ '' with 1 messages from 1 contributors'',
      ''1 distinct topics identified across all conversations'',
      ''0 users actively participating with an average of Infinity messages each'',
      ''Topic engagement: Average 1 messages per topic'',
      ''Most active contributor: @User 7 (1 messages across 1 topics)'']
   \<and> data (fst (processTreeLocally Map.empty (\<lambda>ts. []) ''2024-01-01T00:00:00.000Z''
      (Some \<lparr>messages = Some [\<lparr>fromUserId = Some 7, fromUserName = None,
                                 topicId = Some 1, timestamp = None\<rparr>],
             tree_topics = None\<rparr>)
      \<lparr>q_type = channel_query, users = [], customQuestion = None\<rparr> 1))
   = Data \<lparr>messageCount = 1, topicCount = 1, activeUsers = 0,
       topics = [\<lparr>t_id = 1, t_name = ''Technical Implementation'', t_messageCount = 1,
                  t_contributorCount = 1,
                  t_contributors = [\<lparr>c_userId = Num 7, c_username = ''@User 7'',
                                     c_messageCount = 1\<rparr>]\<rparr>],
       topicsByPopularity = [\<lparr>t_id = 1, t_name = ''Technical Implementation'',
                  t_messageCount = 1, t_contributorCount = 1,
                  t_contributors = [\<lparr>c_userId = Num 7, c_username = ''@User 7'',
                                     c_messageCount = 1\<rparr>]\<rparr>],
       mostDiscussedTopic = Some \<lparr>t_id = 1, t_name = ''Technical Implementation'',
                  t_messageCount = 1, t_contributorCount = 1,
                  t_contributors = [\<lparr>c_userId = Num 7, c_username = ''@User 7'',
                                     c_messageCount = 1\<rparr>]\<rparr>,
       userEngagement = \<lparr>averageMessagesPerUser = Num 0, averageTopicsPerUser = Num 0\<rparr>\<rparr>"
  by code_simp

section \<open>The insight on the biggest engagement difference\<close>

text \<open>
  C4: when two mentioned users share topics and some common topic differs by more than 2
  messages, the "Biggest engagement difference" insight names the common topic with the
  largest difference. The insight names the first common topic, in the order of the first
  user's topics, whose difference exceeds 2. Below, alice and bob differ by 3 messages in
  topic 1 and by 4 in topic 2: the insight names topic 1, "Technical Implementation".
\<close>

theorem C4_first_significant_difference:
  "insights (fst (processTreeLocally Map.empty (\<lambda>ts. []) ''2024-01-01T00:00:00.000Z''
      (Some (tree_of [named_message 1 ''alice'' 1, named_message 1 ''alice'' 1,
                      named_message 1 ''alice'' 1, named_message 1 ''alice'' 1,
                      named_message 1 ''alice'' 2, named_message 1 ''alice'' 2,
                      named_message 1 ''alice'' 2, named_message 1 ''alice'' 2,
                      named_message 1 ''alice'' 2,
                      named_message 2 ''bob'' 1, named_message 2 ''bob'' 2]))
      \<lparr>q_type = custom_query, users = [],
        customQuestion = Some ''How do @alice and @bob differ in topic preferences?''\<rparr> 1))
   = [''Most discussed: '' @ dq @ ''Community Governance'' @ dq
        @ '' with 6 messages from 2 contributors'',
      ''2 distinct topics identified across all conversations'',
      ''2 users actively participating with an average of 6 messages each'',
      ''Topic engagement: Average 6 messages per topic'',
      ''Most active contributor: @alice (9 messages across 2 topics)'',
      ''Custom analysis for question: '' @ dq
        @ ''How do @alice and @bob differ in topic preferences?'' @ dq,
      ''Users alice and bob both discussed 2 common topics'',
      ''Biggest engagement difference in '' @ dq @ ''Technical Implementation'' @ dq
        @ '': alice (4 msgs) vs bob (1 msgs)'',
      ''Different focus areas: alice primarily discusses '' @ dq @ ''Community Governance'' @ dq
        @ '', bob focuses on '' @ dq @ ''Technical Implementation'' @ dq]
   \<and> fold userTopicMap_step
        [named_message 1 ''alice'' 1, named_message 1 ''alice'' 1,
         named_message 1 ''alice'' 1, named_message 1 ''alice'' 1,
         named_message 1 ''alice'' 2, named_message 1 ''alice'' 2,
         named_message 1 ''alice'' 2, named_message 1 ''alice'' 2,
         named_message 1 ''alice'' 2,
         named_message 2 ''bob'' 1, named_message 2 ''bob'' 2] []
     = [(''alice'', [(1, 4), (2, 5)]), (''bob'', [(1, 1), (2, 1)])]
   \<and> map (\<lambda>ct. (ct_topicId ct, ct_name ct, user1Messages ct, user2Messages ct, difference ct))
        (common_topics Map.empty [(1, 4), (2, 5)] [(1, 1), (2, 1)])
     = [(1, ''Technical Implementation'', 4, 1, 3), (2, ''Community Governance'', 5, 1, 4)]"
  by code_simp

section \<open>The insight on the most active contributor\<close>

text \<open>
  C5: the "Most active contributor" insight names the user with the largest total message
  count over all topics. The insight names the first contributor of the most discussed
  topic. In the tree below alice sent two messages, both in the most discussed topic, and
  bob sent three, over two topics: the insight names alice, with 2 messages across 1
  topics.
\<close>

theorem C5_top_contributor_of_top_topic:
  "insights (fst (processTreeLocally Map.empty (\<lambda>ts. []) ''2024-01-01T00:00:00.000Z''
      (Some (tree_of [named_message 1 ''alice'' 0, named_message 1 ''alice'' 0,
                      named_message 2 ''bob'' 0, named_message 2 ''bob'' 1,
                      named_message 2 ''bob'' 1]))
      channel_query_all 1))
   = [''Most discussed: '' @ dq @ ''General Discussion'' @ dq
        @ '' with 3 messages from 2 contributors'',
      ''2 distinct topics identified across all conversations'',
      ''2 users actively participating with an average of 3 messages each'',
      ''Topic engagement: Average 3 messages per topic'',
      ''Most active contributor: @alice (2 messages across 1 topics)'']
   \<and> map (\<lambda>u. length (filter (\<lambda>m. fromUserId m = Some u)
                 [named_message 1 ''alice'' 0, named_message 1 ''alice'' 0,
                  named_message 2 ''bob'' 0, named_message 2 ''bob'' 1,
                  named_message 2 ''bob'' 1])) [1, 2] = [2, 3]"
  by code_simp

section \<open>The delta of two results\<close>

text \<open>
  C6: for every pair of aggregated results the pairwise delta classifies each topic id as
  new, removed, changed or unchanged, with \<^verbatim>\<open>changePercent = round(change / earlier * 100)\<close>.
  The result that processTreeLocally returns for a tree without messages has the empty
  object as data, and generateDeltaAnalysis reads \<^verbatim>\<open>data.topics.map\<close> of both results
  without a guard: with such a result on either side it throws a TypeError instead of
  reporting the topics of the other side as new or removed. When the earlier tree has an
  empty \<^verbatim>\<open>messages\<close> mapping instead, the delta is the one the claim describes: topic 42
  is the only new topic, with message count 1, and nothing is removed or changed (for two
  results that carry data the three lists are those of the lemmas \<open>newTopics_delta_of\<close>,
  \<open>removedTopics_delta_of\<close>, \<open>changedTopics_delta_of\<close> and \<open>delta_new_topic\<close>). The
  percentage is computed in double arithmetic: for a topic that goes from 40 to 63
  messages the quotient 0.575 times 100 is 57.49999999999999 and changePercent is 57,
  where the exact value 57.5 rounds to 58.
\<close>

theorem C6_delta_of_result_without_data:
  "generateDeltaAnalysis
     (fst (processTreeLocally Map.empty (\<lambda>ts. []) ''2024-01-01T00:00:00.000Z''
        (Some \<lparr>messages = None, tree_topics = None\<rparr>) channel_query_all 1))
     (fst (processTreeLocally Map.empty (\<lambda>ts. []) ''2024-01-02T00:00:00.000Z''
        (Some (tree_of [named_message 3 ''carol'' 42])) channel_query_all 2))
   = Inl TypeError
   \<and> generateDeltaAnalysis
     (fst (processTreeLocally Map.empty (\<lambda>ts. []) ''2024-01-01T00:00:00.000Z''
        (Some (tree_of [named_message 3 ''carol'' 42])) channel_query_all 1))
     (fst (processTreeLocally Map.empty (\<lambda>ts. []) ''2024-01-02T00:00:00.000Z''
        (Some \<lparr>messages = None, tree_topics = None\<rparr>) channel_query_all 2))
   = Inl TypeError
   \<and> generateDeltaAnalysis
     (fst (processTreeLocally Map.empty (\<lambda>ts. []) ''2024-01-01T00:00:00.000Z''
        (Some \<lparr>messages = Some [], tree_topics = None\<rparr>) channel_query_all 1))
     (fst (processTreeLocally Map.empty (\<lambda>ts. []) ''2024-01-02T00:00:00.000Z''
        (Some (tree_of [named_message 3 ''carol'' 42])) channel_query_all 2))
   = Inr \<lparr>newTopics =
            [\<lparr>t_id = 42, t_name = ''Topic 42'', t_messageCount = 1, t_contributorCount = 1,
              t_contributors = [\<lparr>c_userId = Num 3, c_username = ''@carol'',
                                 c_messageCount = 1\<rparr>]\<rparr>],
          removedTopics = [], changedTopics = []\<rparr>
   \<and> map (\<lambda>c. (t_id (ch_topic c), previousCount c, t_messageCount (ch_topic c), change c,
                changePercent c))
       (changedTopics (delta_of
          [\<lparr>t_id = 1, t_name = ''Technical Implementation'', t_messageCount = 40,
            t_contributorCount = 1,
            t_contributors = [\<lparr>c_userId = Num 1, c_username = ''@alice'',
                               c_messageCount = 40\<rparr>]\<rparr>]
          [\<lparr>t_id = 1, t_name = ''Technical Implementation'', t_messageCount = 63,
            t_contributorCount = 1,
            t_contributors = [\<lparr>c_userId = Num 1, c_username = ''@alice'',
                               c_messageCount = 63\<rparr>]\<rparr>]))
     = [(1, 40, 63, 23, Num 57)]
   \<and> exact_changePercent 23 40 = 58"
  by code_simp

section \<open>Repeated runs\<close>

text \<open>
  C7 (as stated): two runs of processTreeLocally on the same tree and query give
  byte-identical results. The metadata of a result holds the time of the call
  (\<^verbatim>\<open>new Date().toISOString()\<close>), so two runs at different times differ.
\<close>

theorem C7_counterexample:
  "fst (processTreeLocally Map.empty (\<lambda>ts. []) ''2024-01-01T00:00:00.000Z''
          (Some (tree_of [named_message 1 ''alice'' 0])) channel_query_all 1)
   \<noteq> fst (processTreeLocally Map.empty (\<lambda>ts. []) ''2024-01-01T00:00:00.001Z''
          (Some (tree_of [named_message 1 ''alice'' 0])) channel_query_all 1)"
proof
  assume "fst (processTreeLocally Map.empty (\<lambda>ts. []) ''2024-01-01T00:00:00.000Z''
          (Some (tree_of [named_message 1 ''alice'' 0])) channel_query_all 1)
   = fst (processTreeLocally Map.empty (\<lambda>ts. []) ''2024-01-01T00:00:00.001Z''
          (Some (tree_of [named_message 1 ''alice'' 0])) channel_query_all 1)"
  then have "meta_timestamp (metadata (fst (processTreeLocally Map.empty (\<lambda>ts. [])
          ''2024-01-01T00:00:00.000Z''
          (Some (tree_of [named_message 1 ''alice'' 0])) channel_query_all 1)))
   = meta_timestamp (metadata (fst (processTreeLocally Map.empty (\<lambda>ts. [])
          ''2024-01-01T00:00:00.001Z''
          (Some (tree_of [named_message 1 ''alice'' 0])) channel_query_all 1)))"
    by simp
  then show False
    by (simp add: processTreeLocally_def tree_of_def make_metadata_def Let_def)
qed

text \<open>
  C7 (amended): a run of processTreeLocally that starts from the cache left by a run on the
  same tree and query, in the same browser environment, returns the same summary, data,
  insights and metadata except for the metadata's timestamp, and leaves the cache as it
  found it. The insights of the repeated run are generateInsights applied to the filtered
  messages, the topic list, the users, the query, the cache after the first run and the
  date format: the same arguments as in the first run.
\<close>

theorem C7_repeatable:
  "processTreeLocally
     (snd (processTreeLocally cache localeDate now treeData queryData version))
     localeDate now' treeData queryData version
   = ((fst (processTreeLocally cache localeDate now treeData queryData version))
        \<lparr>metadata :=
           (metadata (fst (processTreeLocally cache localeDate now treeData queryData version)))
             \<lparr>meta_timestamp := now'\<rparr>\<rparr>,
      snd (processTreeLocally cache localeDate now treeData queryData version))
   \<and> insights (fst (processTreeLocally
          (snd (processTreeLocally cache localeDate now
                  (Some \<lparr>messages = Some allMessages, tree_topics = topicDefs\<rparr>)
                  queryData version))
          localeDate now' (Some \<lparr>messages = Some allMessages, tree_topics = topicDefs\<rparr>)
          queryData version))
     = generateInsights
         (extractTopicNames cache \<lparr>messages = Some allMessages, tree_topics = topicDefs\<rparr>)
         localeDate
         (filterMessages (users queryData) allMessages)
         (build_topicsData
            (extractTopicNames cache \<lparr>messages = Some allMessages, tree_topics = topicDefs\<rparr>)
            (filterMessages (users queryData) allMessages))
         (collect_users (filterMessages (users queryData) allMessages))
         queryData"
proof (intro conjI)
  show "insights (fst (processTreeLocally
          (snd (processTreeLocally cache localeDate now
                  (Some \<lparr>messages = Some allMessages, tree_topics = topicDefs\<rparr>)
                  queryData version))
          localeDate now' (Some \<lparr>messages = Some allMessages, tree_topics = topicDefs\<rparr>)
          queryData version))
     = generateInsights
         (extractTopicNames cache \<lparr>messages = Some allMessages, tree_topics = topicDefs\<rparr>)
         localeDate
         (filterMessages (users queryData) allMessages)
         (build_topicsData
            (extractTopicNames cache \<lparr>messages = Some allMessages, tree_topics = topicDefs\<rparr>)
            (filterMessages (users queryData) allMessages))
         (collect_users (filterMessages (users queryData) allMessages))
         queryData"
    by (simp add: processTreeLocally_def Let_def extractTopicNames_idem)
next
  show "processTreeLocally
     (snd (processTreeLocally cache localeDate now treeData queryData version))
     localeDate now' treeData queryData version
   = ((fst (processTreeLocally cache localeDate now treeData queryData version))
        \<lparr>metadata :=
           (metadata (fst (processTreeLocally cache localeDate now treeData queryData version)))
             \<lparr>meta_timestamp := now'\<rparr>\<rparr>,
      snd (processTreeLocally cache localeDate now treeData queryData version))"
  proof (cases treeData)
  case None
  then show ?thesis
    by (simp add: processTreeLocally_def make_metadata_def)
next
  case (Some tree)
  show ?thesis
  proof (cases "messages tree")
    case None
    then show ?thesis
      using Some by (simp add: processTreeLocally_def make_metadata_def)
  next
    case (Some ms)
    then show ?thesis
      using \<open>treeData = Some tree\<close>
      by (simp add: processTreeLocally_def make_metadata_def Let_def extractTopicNames_idem)
  qed
  qed
qed

theorem C7_repeatable_witness:
  "processTreeLocally
     (snd (processTreeLocally Map.empty (\<lambda>ts. []) ''2024-01-01T00:00:00.000Z''
        (Some \<lparr>messages = Some [named_message 1 ''alice'' 12],
               tree_topics = Some [(''12'', Some \<lparr>td_name = Some ''Staking'', td_title = None\<rparr>)]\<rparr>)
        channel_query_all 1))
     (\<lambda>ts. []) ''2024-01-01T00:00:00.001Z''
     (Some \<lparr>messages = Some [named_message 1 ''alice'' 12],
            tree_topics = Some [(''12'', Some \<lparr>td_name = Some ''Staking'', td_title = None\<rparr>)]\<rparr>)
     channel_query_all 1
   = ((fst (processTreeLocally Map.empty (\<lambda>ts. []) ''2024-01-01T00:00:00.000Z''
        (Some \<lparr>messages = Some [named_message 1 ''alice'' 12],
               tree_topics = Some [(''12'', Some \<lparr>td_name = Some ''Staking'', td_title = None\<rparr>)]\<rparr>)
        channel_query_all 1))
        \<lparr>metadata :=
           (metadata (fst (processTreeLocally Map.empty (\<lambda>ts. []) ''2024-01-01T00:00:00.000Z''
              (Some \<lparr>messages = Some [named_message 1 ''alice'' 12],
                     tree_topics = Some [(''12'', Some \<lparr>td_name = Some ''Staking'', td_title = None\<rparr>)]\<rparr>)
              channel_query_all 1)))
             \<lparr>meta_timestamp := ''2024-01-01T00:00:00.001Z''\<rparr>\<rparr>,
      snd (processTreeLocally Map.empty (\<lambda>ts. []) ''2024-01-01T00:00:00.000Z''
        (Some \<lparr>messages = Some [named_message 1 ''alice'' 12],
               tree_topics = Some [(''12'', Some \<lparr>td_name = Some ''Staking'', td_title = None\<rparr>)]\<rparr>)
        channel_query_all 1))
   \<and> insights (fst (processTreeLocally Map.empty (\<lambda>ts. []) ''2024-01-01T00:00:00.000Z''
        (Some \<lparr>messages = Some [named_message 1 ''alice'' 12],
               tree_topics = Some [(''12'', Some \<lparr>td_name = Some ''Staking'', td_title = None\<rparr>)]\<rparr>)
        channel_query_all 1))
     = [''Most discussed: '' @ dq @ ''Staking'' @ dq @ '' with 1 messages from 1 contributors'',
        ''1 distinct topics identified across all conversations'',
        ''1 users actively participating with an average of 1 messages each'',
        ''Topic engagement: Average 1 messages per topic'',
        ''Most active contributor: @alice (1 messages across 1 topics)'']"
proof -
  have "insights (fst (processTreeLocally Map.empty (\<lambda>ts. []) ''2024-01-01T00:00:00.000Z''
        (Some \<lparr>messages = Some [named_message 1 ''alice'' 12],
               tree_topics = Some [(''12'', Some \<lparr>td_name = Some ''Staking'', td_title = None\<rparr>)]\<rparr>)
        channel_query_all 1))
     = [''Most discussed: '' @ dq @ ''Staking'' @ dq @ '' with 1 messages from 1 contributors'',
        ''1 distinct topics identified across all conversations'',
        ''1 users actively participating with an average of 1 messages each'',
        ''Topic engagement: Average 1 messages per topic'',
        ''Most active contributor: @alice (1 messages across 1 topics)'']"
    by code_simp
  then show ?thesis
    using C7_repeatable [of Map.empty "\<lambda>ts. []" "''2024-01-01T00:00:00.000Z''"
        "Some \<lparr>messages = Some [named_message 1 ''alice'' 12],
               tree_topics = Some [(''12'', Some \<lparr>td_name = Some ''Staking'', td_title = None\<rparr>)]\<rparr>"
        channel_query_all 1 "''2024-01-01T00:00:00.001Z''", THEN conjunct1]
    by (intro conjI)
qed

section \<open>Filter monotonicity\<close>

text \<open>
  C8: for every tree and every user filter, the messageCount under the filter is at most
  the messageCount with no filter, and likewise the topicCount. For a tree without a
  \<^verbatim>\<open>messages\<close> mapping both results have the empty object as data: neither count exists,
  and the comparison \<^verbatim>\<open>filtered.data.messageCount <= baseline.data.messageCount\<close> that the
  test suite makes is a comparison of \<^verbatim>\<open>undefined\<close> with \<^verbatim>\<open>undefined\<close>, which is false.
  With a \<^verbatim>\<open>messages\<close> mapping that is present and empty the counts are zero and the
  comparison holds; lemma \<open>filter_monotone\<close> shows that it holds for every tree that has
  the mapping.
\<close>

theorem C8_no_counts_to_compare:
  "data_messageCount (data (fst (processTreeLocally Map.empty (\<lambda>ts. [])
       ''2024-01-01T00:00:00.000Z'' (Some \<lparr>messages = None, tree_topics = None\<rparr>)
       \<lparr>q_type = users_analysis, users = [''1'', ''2''], customQuestion = None\<rparr> 1))) = None
   \<and> data_messageCount (data (fst (processTreeLocally Map.empty (\<lambda>ts. [])
       ''2024-01-01T00:00:00.000Z'' (Some \<lparr>messages = None, tree_topics = None\<rparr>)
       \<lparr>q_type = users_analysis, users = [], customQuestion = None\<rparr> 1))) = None
   \<and> \<not> js_le
       (data_messageCount (data (fst (processTreeLocally Map.empty (\<lambda>ts. [])
          ''2024-01-01T00:00:00.000Z'' (Some \<lparr>messages = None, tree_topics = None\<rparr>)
          \<lparr>q_type = users_analysis, users = [''1'', ''2''], customQuestion = None\<rparr> 1))))
       (data_messageCount (data (fst (processTreeLocally Map.empty (\<lambda>ts. [])
          ''2024-01-01T00:00:00.000Z'' (Some \<lparr>messages = None, tree_topics = None\<rparr>)
          \<lparr>q_type = users_analysis, users = [], customQuestion = None\<rparr> 1))))
   \<and> \<not> js_le
       (data_topicCount (data (fst (processTreeLocally Map.empty (\<lambda>ts. [])
          ''2024-01-01T00:00:00.000Z'' (Some \<lparr>messages = None, tree_topics = None\<rparr>)
          \<lparr>q_type = users_analysis, users = [''1'', ''2''], customQuestion = None\<rparr> 1))))
       (data_topicCount (data (fst (processTreeLocally Map.empty (\<lambda>ts. [])
          ''2024-01-01T00:00:00.000Z'' (Some \<lparr>messages = None, tree_topics = None\<rparr>)
          \<lparr>q_type = users_analysis, users = [], customQuestion = None\<rparr> 1))))
   \<and> js_le
       (data_messageCount (data (fst (processTreeLocally Map.empty (\<lambda>ts. [])
          ''2024-01-01T00:00:00.000Z'' (Some \<lparr>messages = Some [], tree_topics = None\<rparr>)
          \<lparr>q_type = users_analysis, users = [''1'', ''2''], customQuestion = None\<rparr> 1))))
       (data_messageCount (data (fst (processTreeLocally Map.empty (\<lambda>ts. [])
          ''2024-01-01T00:00:00.000Z'' (Some \<lparr>messages = Some [], tree_topics = None\<rparr>)
          \<lparr>q_type = users_analysis, users = [], customQuestion = None\<rparr> 1))))
   \<and> js_le
       (data_topicCount (data (fst (processTreeLocally Map.empty (\<lambda>ts. [])
          ''2024-01-01T00:00:00.000Z'' (Some \<lparr>messages = Some [], tree_topics = None\<rparr>)
          \<lparr>q_type = users_analysis, users = [''1'', ''2''], customQuestion = None\<rparr> 1))))
       (data_topicCount (data (fst (processTreeLocally Map.empty (\<lambda>ts. [])
          ''2024-01-01T00:00:00.000Z'' (Some \<lparr>messages = Some [], tree_topics = None\<rparr>)
          \<lparr>q_type = users_analysis, users = [], customQuestion = None\<rparr> 1))))"
  by code_simp

section \<open>Order of topics and contributors\<close>

text \<open>
  C9: in every aggregated result the topics are sorted by descending messageCount and
  the contributors of each topic by descending messageCount; entries with equal counts
  stand in the order of their first encounter: the topics with \<open>k\<close> messages are, in this
  order, the topic ids with \<open>k\<close> messages in the order in which the messages first mention
  them, and the contributors of a topic with \<open>k\<close> messages are, in this order, the entries
  of the senders with \<open>k\<close> messages in the topic in the order in which the topic's
  messages first mention them. The entry of a sender carries \<^verbatim>\<open>parseInt\<close> of the sender's
  id, which is the id itself when the ids are safe integers.
\<close>

theorem C9_sorted_stable:
  assumes "messages tree = Some allMessages"
  shows "\<exists>d. data (fst (processTreeLocally cache localeDate now (Some tree) queryData version))
                = Data d
           \<and> sorted_wrt (\<lambda>a b. t_messageCount b \<le> t_messageCount a) (topics d)
           \<and> (\<forall>t \<in> set (topics d).
                 sorted_wrt (\<lambda>a b. c_messageCount b \<le> c_messageCount a) (t_contributors t))
           \<and> (\<forall>k. map t_id (filter (\<lambda>t. t_messageCount t = k) (topics d)) =
                    filter (\<lambda>t. length (messages_of_topic t
                                  (filterMessages (users queryData) allMessages)) = k)
                      (encounter_order (topic_ids (filterMessages (users queryData) allMessages))))
           \<and> (\<forall>t \<in> set (topics d). \<forall>k.
                 map c_userId (filter (\<lambda>c. c_messageCount c = k) (t_contributors t)) =
                   map (\<lambda>u. parseInt (string_of_number (Num u)))
                     (filter (\<lambda>u. sent_in_topic u (t_id t)
                                   (filterMessages (users queryData) allMessages) = k)
                        (encounter_order (sender_ids (messages_of_topic (t_id t)
                           (filterMessages (users queryData) allMessages))))))
           \<and> ({u. \<exists>m \<in> set (filterMessages (users queryData) allMessages).
                      fromUserId m = Some u} \<subseteq> {u. \<bar>u\<bar> < 2 ^ 53} \<longrightarrow>
                (\<forall>t \<in> set (topics d). \<forall>k.
                   map c_userId (filter (\<lambda>c. c_messageCount c = k) (t_contributors t)) =
                     map Num
                       (filter (\<lambda>u. sent_in_topic u (t_id t)
                                     (filterMessages (users queryData) allMessages) = k)
                          (encounter_order (sender_ids (messages_of_topic (t_id t)
                             (filterMessages (users queryData) allMessages)))))))"
proof -
  let ?ms = "filterMessages (users queryData) allMessages"
  let ?c = "extractTopicNames cache tree"
  let ?ts = "build_topicsData ?c ?ms"
  let ?d = "aggregate ?ms ?ts"
  have sorted_ts: "sorted_wrt (\<lambda>a b. t_messageCount b \<le> t_messageCount a) ?ts"
    by (simp add: build_topicsData_char sorted_sort_desc)
  have each: "t_contributors t = contributors_of ?ms (t_id t)" if "t \<in> set ?ts" for t
    using that by (auto simp: set_build_topicsData t_id_topic_of t_contributors_topic_of)
  have sorted_cs: "sorted_wrt (\<lambda>a b. c_messageCount b \<le> c_messageCount a) (t_contributors t)"
    if "t \<in> set ?ts" for t
    using each [OF that] by (simp add: contributors_of_def sorted_sort_desc)
  have stable_cs: "map c_userId (filter (\<lambda>c. c_messageCount c = k) (t_contributors t)) =
      map (\<lambda>u. parseInt (string_of_number (Num u)))
        (filter (\<lambda>u. sent_in_topic u (t_id t) ?ms = k)
           (encounter_order (sender_ids (messages_of_topic (t_id t) ?ms))))"
    if "t \<in> set ?ts" for t k
    using each [OF that] by (simp add: contributors_stable)
  have safe_cs: "map c_userId (filter (\<lambda>c. c_messageCount c = k) (t_contributors t)) =
      map Num
        (filter (\<lambda>u. sent_in_topic u (t_id t) ?ms = k)
           (encounter_order (sender_ids (messages_of_topic (t_id t) ?ms))))"
    if t: "t \<in> set ?ts"
      and safe: "{u. \<exists>m \<in> set ?ms. fromUserId m = Some u} \<subseteq> {u. \<bar>u\<bar> < 2 ^ 53}" for t k
  proof -
    have id: "parseInt (string_of_number (Num u)) = Num u"
      if "u \<in> set (sender_ids (messages_of_topic (t_id t) ?ms))" for u
    proof -
      have "\<exists>m \<in> set ?ms. fromUserId m = Some u"
        using that by (rule sender_of_topic)
      then have "\<bar>u\<bar> < 2 ^ 53"
        using safe by blast
      then show ?thesis
        by (rule parseInt_string_of_number)
    qed
    show ?thesis
      unfolding stable_cs [OF t]
      by (rule map_cong [OF refl]) (simp add: id set_encounter_order)
  qed
  have A: "data (fst (processTreeLocally cache localeDate now (Some tree) queryData version))
             = Data ?d"
    by (rule data_processTreeLocally [OF assms])
  have B: "sorted_wrt (\<lambda>a b. t_messageCount b \<le> t_messageCount a) (topics ?d)"
    using sorted_ts by (simp add: topics_aggregate)
  have C: "\<forall>t \<in> set (topics ?d).
             sorted_wrt (\<lambda>a b. c_messageCount b \<le> c_messageCount a) (t_contributors t)"
    using sorted_cs by (simp add: topics_aggregate)
  have D: "\<forall>k. map t_id (filter (\<lambda>t. t_messageCount t = k) (topics ?d)) =
                filter (\<lambda>t. length (messages_of_topic t ?ms) = k) (encounter_order (topic_ids ?ms))"
    by (simp add: topics_aggregate topics_stable)
  have E: "\<forall>t \<in> set (topics ?d). \<forall>k.
             map c_userId (filter (\<lambda>c. c_messageCount c = k) (t_contributors t)) =
               map (\<lambda>u. parseInt (string_of_number (Num u)))
                 (filter (\<lambda>u. sent_in_topic u (t_id t) ?ms = k)
                    (encounter_order (sender_ids (messages_of_topic (t_id t) ?ms))))"
    using stable_cs by (simp add: topics_aggregate)
  have F: "{u. \<exists>m \<in> set ?ms. fromUserId m = Some u} \<subseteq> {u. \<bar>u\<bar> < 2 ^ 53} \<longrightarrow>
           (\<forall>t \<in> set (topics ?d). \<forall>k.
              map c_userId (filter (\<lambda>c. c_messageCount c = k) (t_contributors t)) =
                map Num
                  (filter (\<lambda>u. sent_in_topic u (t_id t) ?ms = k)
                     (encounter_order (sender_ids (messages_of_topic (t_id t) ?ms)))))"
    using safe_cs by (simp add: topics_aggregate)
  show ?thesis
    using A B C D E F by (intro exI [of _ ?d] conjI)
qed

theorem C9_sorted_stable_witness:
  "messages (tree_of [named_message 1 ''alice'' 5, named_message 2 ''bob'' 3,
                      named_message 1 ''alice'' 3, named_message 3 ''carol'' 9,
                      named_message 3 ''carol'' 5, named_message 1 ''alice'' 3,
                      named_message 2 ''bob'' 9])
     = Some [named_message 1 ''alice'' 5, named_message 2 ''bob'' 3,
             named_message 1 ''alice'' 3, named_message 3 ''carol'' 9,
             named_message 3 ''carol'' 5, named_message 1 ''alice'' 3,
             named_message 2 ''bob'' 9]
   \<and> {u. \<exists>m \<in> set (filterMessages (users channel_query_all)
             [named_message 1 ''alice'' 5, named_message 2 ''bob'' 3,
              named_message 1 ''alice'' 3, named_message 3 ''carol'' 9,
              named_message 3 ''carol'' 5, named_message 1 ''alice'' 3,
              named_message 2 ''bob'' 9]). fromUserId m = Some u} \<subseteq> {u. \<bar>u\<bar> < 2 ^ 53}
   \<and> (\<exists>d. data (fst (processTreeLocally Map.empty (\<lambda>ts. []) ''2024-01-01T00:00:00.000Z''
              (Some (tree_of [named_message 1 ''alice'' 5, named_message 2 ''bob'' 3,
                              named_message 1 ''alice'' 3, named_message 3 ''carol'' 9,
                              named_message 3 ''carol'' 5, named_message 1 ''alice'' 3,
                              named_message 2 ''bob'' 9]))
              channel_query_all 1)) = Data d
        \<and> map (\<lambda>t. (t_id t, t_messageCount t,
                     map (\<lambda>c. (c_userId c, c_messageCount c)) (t_contributors t))) (topics d)
            = [(3, 3, [(Num 1, 2), (Num 2, 1)]), (5, 2, [(Num 1, 1), (Num 3, 1)]),
               (9, 2, [(Num 3, 1), (Num 2, 1)])]
        \<and> sorted_wrt (\<lambda>a b. t_messageCount b \<le> t_messageCount a) (topics d)
        \<and> map t_id (filter (\<lambda>t. t_messageCount t = 2) (topics d)) =
            filter (\<lambda>t. length (messages_of_topic t
                          (filterMessages (users channel_query_all)
                             [named_message 1 ''alice'' 5, named_message 2 ''bob'' 3,
                              named_message 1 ''alice'' 3, named_message 3 ''carol'' 9,
                              named_message 3 ''carol'' 5, named_message 1 ''alice'' 3,
                              named_message 2 ''bob'' 9])) = 2)
              (encounter_order (topic_ids (filterMessages (users channel_query_all)
                 [named_message 1 ''alice'' 5, named_message 2 ''bob'' 3,
                  named_message 1 ''alice'' 3, named_message 3 ''carol'' 9,
                  named_message 3 ''carol'' 5, named_message 1 ''alice'' 3,
                  named_message 2 ''bob'' 9])))
        \<and> list_all (\<lambda>t.
              map c_userId (filter (\<lambda>c. c_messageCount c = 1) (t_contributors t)) =
                map Num
                  (filter (\<lambda>u. sent_in_topic u (t_id t)
                      (filterMessages (users channel_query_all)
                         [named_message 1 ''alice'' 5, named_message 2 ''bob'' 3,
                          named_message 1 ''alice'' 3, named_message 3 ''carol'' 9,
                          named_message 3 ''carol'' 5, named_message 1 ''alice'' 3,
                          named_message 2 ''bob'' 9]) = 1)
                     (encounter_order (sender_ids (messages_of_topic (t_id t)
                        (filterMessages (users channel_query_all)
                           [named_message 1 ''alice'' 5, named_message 2 ''bob'' 3,
                            named_message 1 ''alice'' 3, named_message 3 ''carol'' 9,
                            named_message 3 ''carol'' 5, named_message 1 ''alice'' 3,
                            named_message 2 ''bob'' 9])))))) (topics d))"
  (is "?hyp \<and> ?safe \<and> (\<exists>d. ?res = Data d \<and> ?ev d \<and> ?sorted d \<and> ?stable d \<and> ?ties d)")
proof -
  have h: ?hyp by (simp add: tree_of_def)
  have safe: ?safe
    by (auto simp: filterMessages_def channel_query_all_def named_message_def)
  obtain d where d: "?res = Data d" "?sorted d"
    "\<forall>k. map t_id (filter (\<lambda>t. t_messageCount t = k) (topics d)) =
          filter (\<lambda>t. length (messages_of_topic t
                          (filterMessages (users channel_query_all)
                             [named_message 1 ''alice'' 5, named_message 2 ''bob'' 3,
                              named_message 1 ''alice'' 3, named_message 3 ''carol'' 9,
                              named_message 3 ''carol'' 5, named_message 1 ''alice'' 3,
                              named_message 2 ''bob'' 9])) = k)
              (encounter_order (topic_ids (filterMessages (users channel_query_all)
                 [named_message 1 ''alice'' 5, named_message 2 ''bob'' 3,
                  named_message 1 ''alice'' 3, named_message 3 ''carol'' 9,
                  named_message 3 ''carol'' 5, named_message 1 ''alice'' 3,
                  named_message 2 ''bob'' 9])))"
    "?safe \<longrightarrow> (\<forall>t \<in> set (topics d). \<forall>k.
        map c_userId (filter (\<lambda>c. c_messageCount c = k) (t_contributors t)) =
          map Num
            (filter (\<lambda>u. sent_in_topic u (t_id t)
                (filterMessages (users channel_query_all)
                   [named_message 1 ''alice'' 5, named_message 2 ''bob'' 3,
                    named_message 1 ''alice'' 3, named_message 3 ''carol'' 9,
                    named_message 3 ''carol'' 5, named_message 1 ''alice'' 3,
                    named_message 2 ''bob'' 9]) = k)
               (encounter_order (sender_ids (messages_of_topic (t_id t)
                  (filterMessages (users channel_query_all)
                     [named_message 1 ''alice'' 5, named_message 2 ''bob'' 3,
                      named_message 1 ''alice'' 3, named_message 3 ''carol'' 9,
                      named_message 3 ''carol'' 5, named_message 1 ''alice'' 3,
                      named_message 2 ''bob'' 9]))))))"
    using C9_sorted_stable [OF h, of Map.empty "\<lambda>ts. []" "''2024-01-01T00:00:00.000Z''"
        channel_query_all 1]
    by blast
  have "map_option (map (\<lambda>t. (t_id t, t_messageCount t,
                     map (\<lambda>c. (c_userId c, c_messageCount c)) (t_contributors t))))
          (data_topics ?res)
        = Some [(3, 3, [(Num 1, 2), (Num 2, 1)]), (5, 2, [(Num 1, 1), (Num 3, 1)]),
                (9, 2, [(Num 3, 1), (Num 2, 1)])]"
    by code_simp
  then have ev: "?ev d"
    using d(1) by simp
  have st: "?stable d"
    using d(3) by (rule spec)
  have ties: "?ties d"
    unfolding list_all_iff using d(4) safe by blast
  show ?thesis
    using h safe d(1,2) ev st ties by (intro conjI exI [of _ d])
qed

section \<open>A sender without a name\<close>

text \<open>
  C10 (as stated): every message with a truthy \<^verbatim>\<open>fromUserId\<close>, a topic and no
  \<^verbatim>\<open>fromUserName\<close> puts its user among the topic's contributors under the fallback name
  "@User <id>", and the user is not counted in activeUsers. This fails when another message
  of the same user carries a name: the contributor is then listed under that name and the
  user is counted.
\<close>

theorem C10_counterexample:
  "\<not> (\<exists>d tp c.
        data (fst (processTreeLocally Map.empty (\<lambda>ts. []) ''2024-01-01T00:00:00.000Z''
          (Some \<lparr>messages = Some [\<lparr>fromUserId = Some 7, fromUserName = Some ''bob'',
                                     topicId = Some 1, timestamp = None\<rparr>,
                                   \<lparr>fromUserId = Some 7, fromUserName = None,
                                     topicId = Some 1, timestamp = None\<rparr>],
                  tree_topics = None\<rparr>)
          \<lparr>q_type = channel_query, users = [], customQuestion = None\<rparr> 1)) = Data d
      \<and> tp \<in> set (topics d) \<and> c \<in> set (t_contributors tp)
      \<and> c_userId c = Num 7 \<and> c_username c = ''@User 7'')"
proof -
  have "data (fst (processTreeLocally Map.empty (\<lambda>ts. []) ''2024-01-01T00:00:00.000Z''
          (Some \<lparr>messages = Some [\<lparr>fromUserId = Some 7, fromUserName = Some ''bob'',
                                     topicId = Some 1, timestamp = None\<rparr>,
                                   \<lparr>fromUserId = Some 7, fromUserName = None,
                                     topicId = Some 1, timestamp = None\<rparr>],
                  tree_topics = None\<rparr>)
          \<lparr>q_type = channel_query, users = [], customQuestion = None\<rparr> 1))
        = Data \<lparr>messageCount = 2, topicCount = 1, activeUsers = 1,
            topics = [\<lparr>t_id = 1, t_name = ''Technical Implementation'', t_messageCount = 2,
                       t_contributorCount = 1,
                       t_contributors = [\<lparr>c_userId = Num 7, c_username = ''@bob'',
                                          c_messageCount = 2\<rparr>]\<rparr>],
            topicsByPopularity = [\<lparr>t_id = 1, t_name = ''Technical Implementation'',
                       t_messageCount = 2, t_contributorCount = 1,
                       t_contributors = [\<lparr>c_userId = Num 7, c_username = ''@bob'',
                                          c_messageCount = 2\<rparr>]\<rparr>],
            mostDiscussedTopic = Some \<lparr>t_id = 1, t_name = ''Technical Implementation'',
                       t_messageCount = 2, t_contributorCount = 1,
                       t_contributors = [\<lparr>c_userId = Num 7, c_username = ''@bob'',
                                          c_messageCount = 2\<rparr>]\<rparr>,
            userEngagement = \<lparr>averageMessagesPerUser = Num 2, averageTopicsPerUser = Num 1\<rparr>\<rparr>"
    by code_simp
  then show ?thesis by auto
qed

text \<open>
  C10 (amended): a filtered message with a \<^verbatim>\<open>fromUserId\<close> that is a non-zero safe integer
  (below \<open>2 ^ 53\<close> in magnitude), a topic id other than -1 and no (or an empty)
  \<^verbatim>\<open>fromUserName\<close> is counted in messageCount and in its topic's messageCount, and its user
  is one of the topic's contributors. When no filtered message of that user carries a
  non-empty name, the contributor's name is "@User <id>", the id in plain decimal notation,
  and activeUsers counts only other users. There is a result in which a topic's
  contributorCount exceeds activeUsers. (An id from \<open>10 ^ 21\<close> on is printed in exponent
  notation, and \<^verbatim>\<open>parseInt\<close> of it is its leading digit: the entry then carries that digit
  as its id and the name of the user with that id.)
\<close>

theorem C10_unnamed_sender:
  assumes tree: "messages tree = Some allMessages"
    and m: "m \<in> set (filterMessages (users queryData) allMessages)"
    and u: "fromUserId m = Some u" "u \<noteq> 0"
    and t: "topicId m = Some t" "t \<noteq> - 1"
    and noname: "fromUserName m = None \<or> fromUserName m = Some []"
    and safe: "\<bar>u\<bar> < 2 ^ 53"
  shows "(\<exists>d. data (fst (processTreeLocally cache localeDate now (Some tree) queryData version))
                 = Data d
            \<and> messageCount d = length (filterMessages (users queryData) allMessages)
            \<and> (\<exists>tp \<in> set (topics d).
                  t_id tp = t
                \<and> t_messageCount tp =
                    length (filter (\<lambda>m'. topicId m' = Some t)
                              (filterMessages (users queryData) allMessages))
                \<and> 0 < t_messageCount tp
                \<and> (\<exists>c \<in> set (t_contributors tp).
                      c_userId c = Num u
                    \<and> c_messageCount c =
                        length (filter (\<lambda>m'. fromUserId m' = Some u \<and> topicId m' = Some t)
                                  (filterMessages (users queryData) allMessages))
                    \<and> ((\<forall>m' \<in> set (filterMessages (users queryData) allMessages).
                           fromUserId m' = Some u \<longrightarrow>
                             fromUserName m' = None \<or> fromUserName m' = Some [])
                        \<longrightarrow> c_username c = ''@User '' @ string_of_int u
                          \<and> activeUsers d =
                              card {v. v \<noteq> u \<and> v \<noteq> 0 \<and>
                                 (\<exists>m' \<in> set (filterMessages (users queryData) allMessages).
                                    fromUserId m' = Some v
                                  \<and> (\<exists>n. n \<noteq> [] \<and> fromUserName m' = Some n))}))))
       \<and> (\<exists>tree' d' tp'.
             data (fst (processTreeLocally Map.empty (\<lambda>ts. []) [] (Some tree')
                          \<lparr>q_type = channel_query, users = [], customQuestion = None\<rparr> 1))
               = Data d'
           \<and> tp' \<in> set (topics d') \<and> activeUsers d' < t_contributorCount tp')"
proof -
  let ?ms = "filterMessages (users queryData) allMessages"
  let ?c = "extractTopicNames cache tree"
  let ?tp = "topic_of ?c ?ms t"
  let ?ct = "make_contributor (collect_users ?ms) (u, sent_in_topic u t ?ms)"
  have rt: "real_topic m = Some t"
    using t by (simp add: real_topic_Some)
  then have t_in: "t \<in> set (topic_ids ?ms)"
    using m by (auto simp: topic_ids_def set_map_filter)
  then have tp_in: "?tp \<in> set (build_topicsData ?c ?ms)"
    by (simp add: set_build_topicsData)
  have m_in: "m \<in> set (messages_of_topic t ?ms)"
    using m rt by (simp add: messages_of_topic_def)
  then have pos: "0 < length (messages_of_topic t ?ms)"
    by (auto simp: length_greater_0_conv)
  have "truthy_num (fromUserId m) = Some u"
    using u by (simp add: truthy_num_Some)
  then have "u \<in> set (sender_ids (messages_of_topic t ?ms))"
    using m_in by (auto simp: sender_ids_def set_map_filter)
  then have ct_in: "?ct \<in> set (t_contributors ?tp)"
    by (simp add: t_contributors_topic_of contributors_of_def set_sort_desc set_encounter_order)
  have fallback: "c_username ?ct = ''@User '' @ string_of_int u
      \<and> length (collect_users ?ms) =
          card {v. v \<noteq> u \<and> v \<noteq> 0 \<and> (\<exists>m' \<in> set ?ms. fromUserId m' = Some v
                                  \<and> (\<exists>n. n \<noteq> [] \<and> fromUserName m' = Some n))}"
    if un: "\<forall>m' \<in> set ?ms. fromUserId m' = Some u \<longrightarrow>
              fromUserName m' = None \<or> fromUserName m' = Some []"
  proof -
    have nn: "\<forall>m' \<in> set ?ms. named_user m' \<noteq> Some u"
      using un by (auto simp: named_user_Some)
    then have "map_of (collect_users ?ms) u = None"
      by (rule map_of_collect_users_None)
    then have name: "c_username ?ct = ''@User '' @ string_of_int u"
      by (simp add: make_contributor_def Map_get_def truthy_str_def
          string_of_number_safe [OF safe] parseInt_string_of_int Number_of_int_safe [OF safe])
    have "{v. \<exists>m' \<in> set ?ms. named_user m' = Some v} =
          {v. v \<noteq> u \<and> v \<noteq> 0 \<and> (\<exists>m' \<in> set ?ms. fromUserId m' = Some v
                                  \<and> (\<exists>n. n \<noteq> [] \<and> fromUserName m' = Some n))}"
      using nn by (auto simp: named_user_Some)
    then show ?thesis
      using name by (simp add: length_collect_users)
  qed
  have first: "\<exists>d. data (fst (processTreeLocally cache localeDate now (Some tree) queryData version))
                 = Data d
            \<and> messageCount d = length ?ms
            \<and> (\<exists>tp \<in> set (topics d).
                  t_id tp = t
                \<and> t_messageCount tp = length (filter (\<lambda>m'. topicId m' = Some t) ?ms)
                \<and> 0 < t_messageCount tp
                \<and> (\<exists>c \<in> set (t_contributors tp).
                      c_userId c = Num u
                    \<and> c_messageCount c =
                        length (filter (\<lambda>m'. fromUserId m' = Some u \<and> topicId m' = Some t) ?ms)
                    \<and> ((\<forall>m' \<in> set ?ms. fromUserId m' = Some u \<longrightarrow>
                             fromUserName m' = None \<or> fromUserName m' = Some [])
                        \<longrightarrow> c_username c = ''@User '' @ string_of_int u
                          \<and> activeUsers d =
                              card {v. v \<noteq> u \<and> v \<noteq> 0 \<and>
                                 (\<exists>m' \<in> set ?ms. fromUserId m' = Some v
                                  \<and> (\<exists>n. n \<noteq> [] \<and> fromUserName m' = Some n))})))"
  proof -
    let ?d = "aggregate ?ms (build_topicsData ?c ?ms)"
    have A: "t_id ?tp = t"
      by (simp add: t_id_topic_of)
    have B: "t_messageCount ?tp = length (filter (\<lambda>m'. topicId m' = Some t) ?ms)"
      by (simp add: t_messageCount_topic_of messages_of_topic_filter [OF t(2)])
    have C: "0 < t_messageCount ?tp"
      using pos by (simp add: t_messageCount_topic_of)
    have D: "c_userId ?ct = Num u"
      by (simp add: c_userId_make_contributor parseInt_string_of_number [OF safe])
    have E: "c_messageCount ?ct =
               length (filter (\<lambda>m'. fromUserId m' = Some u \<and> topicId m' = Some t) ?ms)"
      by (simp add: c_messageCount_make_contributor sent_in_topic_filter [OF t(2) u(2)])
    have F: "(\<forall>m' \<in> set ?ms. fromUserId m' = Some u \<longrightarrow>
                 fromUserName m' = None \<or> fromUserName m' = Some [])
             \<longrightarrow> c_username ?ct = ''@User '' @ string_of_int u
               \<and> activeUsers ?d =
                   card {v. v \<noteq> u \<and> v \<noteq> 0 \<and>
                      (\<exists>m' \<in> set ?ms. fromUserId m' = Some v
                       \<and> (\<exists>n. n \<noteq> [] \<and> fromUserName m' = Some n))}"
      using fallback by (simp add: activeUsers_aggregate)
    have tp_in': "?tp \<in> set (topics ?d)"
      using tp_in by (simp add: topics_aggregate)
    have G: "messageCount ?d = length ?ms"
      by (simp add: messageCount_aggregate)
    have inner: "\<exists>c \<in> set (t_contributors ?tp).
                      c_userId c = Num u
                    \<and> c_messageCount c =
                        length (filter (\<lambda>m'. fromUserId m' = Some u \<and> topicId m' = Some t) ?ms)
                    \<and> ((\<forall>m' \<in> set ?ms. fromUserId m' = Some u \<longrightarrow>
                             fromUserName m' = None \<or> fromUserName m' = Some [])
                        \<longrightarrow> c_username c = ''@User '' @ string_of_int u
                          \<and> activeUsers ?d =
                              card {v. v \<noteq> u \<and> v \<noteq> 0 \<and>
                                 (\<exists>m' \<in> set ?ms. fromUserId m' = Some v
                                  \<and> (\<exists>n. n \<noteq> [] \<and> fromUserName m' = Some n))})"
      using D E F by (intro bexI [OF _ ct_in] conjI)
    have outer: "\<exists>tp \<in> set (topics ?d).
                  t_id tp = t
                \<and> t_messageCount tp = length (filter (\<lambda>m'. topicId m' = Some t) ?ms)
                \<and> 0 < t_messageCount tp
                \<and> (\<exists>c \<in> set (t_contributors tp).
                      c_userId c = Num u
                    \<and> c_messageCount c =
                        length (filter (\<lambda>m'. fromUserId m' = Some u \<and> topicId m' = Some t) ?ms)
                    \<and> ((\<forall>m' \<in> set ?ms. fromUserId m' = Some u \<longrightarrow>
                             fromUserName m' = None \<or> fromUserName m' = Some [])
                        \<longrightarrow> c_username c = ''@User '' @ string_of_int u
                          \<and> activeUsers ?d =
                              card {v. v \<noteq> u \<and> v \<noteq> 0 \<and>
                                 (\<exists>m' \<in> set ?ms. fromUserId m' = Some v
                                  \<and> (\<exists>n. n \<noteq> [] \<and> fromUserName m' = Some n))}))"
      using A B C inner by (intro bexI [OF _ tp_in'] conjI)
    show ?thesis
      using data_processTreeLocally [OF tree, of cache localeDate now queryData version] G outer
      by (intro exI [of _ ?d] conjI)
  qed
  have second: "\<exists>tree' d' tp'.
             data (fst (processTreeLocally Map.empty (\<lambda>ts. []) [] (Some tree')
                          \<lparr>q_type = channel_query, users = [], customQuestion = None\<rparr> 1))
               = Data d'
           \<and> tp' \<in> set (topics d') \<and> activeUsers d' < t_contributorCount tp'"
  proof -
    let ?tree = "\<lparr>messages = Some [\<lparr>fromUserId = Some 7, fromUserName = None,
                                     topicId = Some 1, timestamp = None\<rparr>],
                   tree_topics = None\<rparr>"
    have "data (fst (processTreeLocally Map.empty (\<lambda>ts. []) [] (Some ?tree)
                 \<lparr>q_type = channel_query, users = [], customQuestion = None\<rparr> 1))
          = Data \<lparr>messageCount = 1, topicCount = 1, activeUsers = 0,
       topics = [\<lparr>t_id = 1, t_name = ''Technical Implementation'', t_messageCount = 1,
                  t_contributorCount = 1,
                  t_contributors = [\<lparr>c_userId = Num 7, c_username = ''@User 7'',
                                     c_messageCount = 1\<rparr>]\<rparr>],
       topicsByPopularity = [\<lparr>t_id = 1, t_name = ''Technical Implementation'',
                  t_messageCount = 1, t_contributorCount = 1,
                  t_contributors = [\<lparr>c_userId = Num 7, c_username = ''@User 7'',
                                     c_messageCount = 1\<rparr>]\<rparr>],
       mostDiscussedTopic = Some \<lparr>t_id = 1, t_name = ''Technical Implementation'',
                  t_messageCount = 1, t_contributorCount = 1,
                  t_contributors = [\<lparr>c_userId = Num 7, c_username = ''@User 7'',
                                     c_messageCount = 1\<rparr>]\<rparr>,
       userEngagement = \<lparr>averageMessagesPerUser = Num 0, averageTopicsPerUser = Num 0\<rparr>\<rparr>"
      by code_simp
    then show ?thesis
      by (intro exI [of _ ?tree]) auto
  qed
  from first second show ?thesis by (rule conjI)
qed

theorem C10_unnamed_sender_witness:
  "messages (tree_of [named_message 1 ''alice'' 4, unnamed_message 7 4, unnamed_message 7 4])
     = Some [named_message 1 ''alice'' 4, unnamed_message 7 4, unnamed_message 7 4]
   \<and> unnamed_message 7 4 \<in> set (filterMessages (users channel_query_all)
        [named_message 1 ''alice'' 4, unnamed_message 7 4, unnamed_message 7 4])
   \<and> fromUserId (unnamed_message 7 4) = Some 7 \<and> (7 :: int) \<noteq> 0
   \<and> topicId (unnamed_message 7 4) = Some 4 \<and> (4 :: int) \<noteq> - 1
   \<and> (fromUserName (unnamed_message 7 4) = None \<or> fromUserName (unnamed_message 7 4) = Some [])
   \<and> \<bar>7 :: int\<bar> < 2 ^ 53
   \<and> data (fst (processTreeLocally Map.empty (\<lambda>ts. []) ''2024-01-01T00:00:00.000Z''
        (Some (tree_of [named_message 1 ''alice'' 4, unnamed_message 7 4, unnamed_message 7 4]))
        channel_query_all 1))
      = Data \<lparr>messageCount = 3, topicCount = 1, activeUsers = 1,
          topics = [\<lparr>t_id = 4, t_name = ''Product Features'', t_messageCount = 3,
                     t_contributorCount = 2,
                     t_contributors = [\<lparr>c_userId = Num 7, c_username = ''@User 7'',
                                        c_messageCount = 2\<rparr>,
                                       \<lparr>c_userId = Num 1, c_username = ''@alice'',
                                        c_messageCount = 1\<rparr>]\<rparr>],
          topicsByPopularity = [\<lparr>t_id = 4, t_name = ''Product Features'', t_messageCount = 3,
                     t_contributorCount = 2,
                     t_contributors = [\<lparr>c_userId = Num 7, c_username = ''@User 7'',
                                        c_messageCount = 2\<rparr>,
                                       \<lparr>c_userId = Num 1, c_username = ''@alice'',
                                        c_messageCount = 1\<rparr>]\<rparr>],
          mostDiscussedTopic = Some \<lparr>t_id = 4, t_name = ''Product Features'',
                     t_messageCount = 3, t_contributorCount = 2,
                     t_contributors = [\<lparr>c_userId = Num 7, c_username = ''@User 7'',
                                        c_messageCount = 2\<rparr>,
                                       \<lparr>c_userId = Num 1, c_username = ''@alice'',
                                        c_messageCount = 1\<rparr>]\<rparr>,
          userEngagement = \<lparr>averageMessagesPerUser = Num 3, averageTopicsPerUser = Num 1\<rparr>\<rparr>
   \<and> (\<exists>d. data (fst (processTreeLocally Map.empty (\<lambda>ts. []) ''2024-01-01T00:00:00.000Z''
        (Some (tree_of [named_message 1 ''alice'' 4, unnamed_message 7 4, unnamed_message 7 4]))
        channel_query_all 1)) = Data d
        \<and> (\<exists>tp \<in> set (topics d). t_id tp = 4 \<and> 0 < t_messageCount tp
              \<and> (\<exists>c \<in> set (t_contributors tp). c_userId c = Num 7)))"
  (is "?h1 \<and> ?h2 \<and> ?h3 \<and> ?h4 \<and> ?h5 \<and> ?h6 \<and> ?h7 \<and> ?h8 \<and> ?ev \<and> ?concl")
proof -
  have h: ?h1 ?h2 ?h3 ?h4 ?h5 ?h6 ?h7 ?h8
    by (simp_all add: tree_of_def unnamed_message_def filterMessages_def channel_query_all_def)
  have ev: ?ev
    by code_simp
  have ?concl
    using C10_unnamed_sender [OF h, of Map.empty "\<lambda>ts. []" "''2024-01-01T00:00:00.000Z''" 1]
    by blast
  then show ?thesis
    using h ev by (intro conjI)
qed

end
